theory Spec2Isabelle
  imports Main "HOL-Library.Word"
begin

unbundle bit_operations_syntax

section \<open>Bytes, buffers and the packet structure\<close>

text \<open>
  The bridge (bridge.cpp) moves \<open>EVPacket\<close>s between two processes. A packet is a C struct
  of three \<open>uint16_t\<close> header fields and a pointer to its payload. The transmit worker
  \<open>Bridge::TxJob\<close> lays the header out in \<open>tx_buff\<close> through a \<open>uint16_t*\<close> cast and
  copies the payload behind it; the receive worker \<open>Bridge::RxJob\<close> reads the header back
  through the same cast of \<open>rxBuff\<close>. The cast stores a 16-bit value in host byte order; the
  model fixes the little-endian order of the targets of the code (x86, ARM), which is also the
  order the wire format names.
\<close>

type_synonym u8 = "8 word"
type_synonym u16 = "16 word"
type_synonym addr = nat

text \<open>
  Modelled from the spec: the macro \<open>BRIDGE_BUFFER_SIZE\<close> is declared in bridge.hpp, which
  is not among the sources; the specification gives the buffer capacity as 4096 bytes
  (so that the largest payload is 4096 - 6 = 4090 bytes).
\<close>

definition BRIDGE_BUFFER_SIZE :: nat where
  "BRIDGE_BUFFER_SIZE = 4096"

definition MAX_PAYLOAD :: nat where
  "MAX_PAYLOAD = BRIDGE_BUFFER_SIZE - 6"

definition lo8 :: "u16 \<Rightarrow> u8" where
  "lo8 w = ucast w"

definition hi8 :: "u16 \<Rightarrow> u8" where
  "hi8 w = ucast (drop_bit 8 w)"

definition le16 :: "u8 \<Rightarrow> u8 \<Rightarrow> u16" where
  "le16 l h = ucast l OR push_bit 8 (ucast h)"

text \<open>\<open>((uint16_t*) buf)[i]\<close> read and written, on a byte buffer.\<close>

definition load16 :: "u8 list \<Rightarrow> nat \<Rightarrow> u16" where
  "load16 buf i = le16 (buf ! (2 * i)) (buf ! (2 * i + 1))"

definition store16 :: "u8 list \<Rightarrow> nat \<Rightarrow> u16 \<Rightarrow> u8 list" where
  "store16 buf i w = buf[2 * i := lo8 w, 2 * i + 1 := hi8 w]"

text \<open>
  Everything that leaves defined behaviour is a fault of the model: a copy past the end of a
  buffer, a dangling pointer, \<open>front()\<close> of an empty \<open>std::queue\<close>, and the assignment to a
  joinable \<open>std::thread\<close> (which calls \<open>std::terminate\<close>). \<open>JoinNeverReturns\<close> is a call
  of \<open>std::thread::join\<close> on a worker that never leaves its blocking call: the caller does
  not return.
\<close>

datatype fault = BufferOverrun | BadPointer | EmptyQueueFront | Terminate | JoinNeverReturns

text \<open>\<open>memcpy(dst + off, src, n)\<close> and the read side \<open>memcpy(fresh, buf + off, n)\<close>.\<close>

definition memcpy_into :: "u8 list \<Rightarrow> nat \<Rightarrow> u8 list \<Rightarrow> nat \<Rightarrow> fault + u8 list" where
  "memcpy_into dst off src n =
     (if off + n \<le> length dst \<and> n \<le> length src
      then Inr (take off dst @ take n src @ drop (off + n) dst)
      else Inl BufferOverrun)"

definition memcpy_from :: "u8 list \<Rightarrow> nat \<Rightarrow> nat \<Rightarrow> fault + u8 list" where
  "memcpy_from buf off n =
     (if off + n \<le> length buf then Inr (take n (drop off buf)) else Inl BufferOverrun)"

text \<open>
  What a transport read leaves in a buffer: the bytes that arrived overwrite the buffer from
  offset \<open>off\<close>; the operating system never writes past the length it was given, so the
  buffer keeps its size.
\<close>

definition buf_write :: "u8 list \<Rightarrow> nat \<Rightarrow> u8 list \<Rightarrow> u8 list" where
  "buf_write buf off bs =
     take off buf @ take (length buf - off) bs @ drop (off + length bs) buf"

text \<open>
  \<open>struct EVPacket\<close>. The type parameter is the payload: an address for the struct as it
  lies in memory (\<open>uint8_t* data\<close>), the bytes themselves for a packet read through its
  pointer.
\<close>

record 'd EVPacket =
  command :: u16
  packetID :: u16
  dataSize :: u16
  data :: 'd

section \<open>The transmit worker\<close>

text \<open>
  Lines 166 to 171 of \<open>TxJob\<close>: the header through the \<open>uint16_t*\<close> cast, then the payload.
  The result is the buffer and \<open>packet_size\<close>, the byte count handed to \<open>send\<close>/\<open>WriteFile\<close>.
\<close>

definition tx_fill :: "u8 list \<Rightarrow> u8 list EVPacket \<Rightarrow> fault + (u8 list \<times> nat)" where
  "tx_fill tx_buff txPacket =
     (if length tx_buff < 6 then Inl BufferOverrun
      else
        let packet_size = 6 + unat (dataSize txPacket);
            b0 = store16 tx_buff 0 (command txPacket);
            b1 = store16 b0 1 (packetID txPacket);
            b2 = store16 b1 2 (dataSize txPacket)
        in case memcpy_into b2 6 (data txPacket) (unat (dataSize txPacket)) of
             Inl e \<Rightarrow> Inl e
           | Inr b3 \<Rightarrow> Inr (b3, packet_size))"

text \<open>The bytes \<open>send(client_tx_sock, tx_buff, packet_size, 0)\<close> hands to the transport.\<close>

definition wire_bytes :: "u8 list \<Rightarrow> nat \<Rightarrow> u8 list" where
  "wire_bytes tx_buff packet_size = take packet_size tx_buff"

text \<open>The frame of a packet: six header bytes, then \<open>dataSize\<close> payload bytes.\<close>

definition frame :: "u8 list EVPacket \<Rightarrow> u8 list" where
  "frame p =
     [lo8 (command p), hi8 (command p), lo8 (packetID p), hi8 (packetID p),
      lo8 (dataSize p), hi8 (dataSize p)] @ take (unat (dataSize p)) (data p)"

section \<open>The receive worker: reconstruction\<close>

text \<open>
  Lines 290 to 307 of \<open>RxJob\<close>: the packet rebuilt from \<open>rxBuff\<close>. \<open>uninit\<close> is the
  content of the one byte that \<open>malloc(1)\<close> returns in the oversize branch, which the code
  never writes.
\<close>

definition reconstruct :: "u8 list \<Rightarrow> u8 \<Rightarrow> fault + u8 list EVPacket" where
  "reconstruct rxBuff uninit =
     (if length rxBuff < 6 then Inl BufferOverrun
      else
        let c = load16 rxBuff 0;
            p = load16 rxBuff 1;
            d = load16 rxBuff 2
        in if unat d \<le> BRIDGE_BUFFER_SIZE - 6
           then (case memcpy_from rxBuff 6 (unat d) of
                   Inl e \<Rightarrow> Inl e
                 | Inr bs \<Rightarrow> Inr \<lparr>command = c, packetID = p, dataSize = d, data = bs\<rparr>)
           else Inr \<lparr>command = c, packetID = p, dataSize = 1, data = [uninit]\<rparr>)"

section \<open>Process state: heap, queues, descriptors\<close>

text \<open>
  Packets are \<open>malloc\<close>ed: the struct is one block, its payload another. The heap maps an
  address to the block that lives there; \<open>free\<close> removes the block.
\<close>

datatype obj = Struct "addr EVPacket" | Bytes "u8 list"

text \<open>
  The \<open>std::queue\<close> objects of the process live in a store indexed by their
  identity, since \<open>Bridge\<close> holds references to queues: whether \<open>_txQueue\<close> and the global
  \<open>_gtxQueue\<close> are one object is a matter of which queue the constructor was given.
  \<open>gtxQueue\<close> and \<open>grxQueue\<close> are the globals \<open>_gtxQueue\<close> and \<open>_grxQueue\<close>.
\<close>

type_synonym qid = nat

definition gtxQueue :: qid where
  "gtxQueue = 0"

definition grxQueue :: qid where
  "grxQueue = 1"

text \<open>
  The state outside the \<open>Bridge\<close> object: heap, queues, the open file descriptors of the
  process, the socket files that exist, what has been handed to \<open>send\<close> (one entry per
  call), and the number of 500 microsecond sleeps taken.
\<close>

record world =
  heap :: "addr \<rightharpoonup> obj"
  queues :: "qid \<Rightarrow> addr list"
  open_fds :: "int set"
  sock_files :: "string set"
  sent :: "u8 list list"
  naps :: nat

definition world0 :: world where
  "world0 = \<lparr>heap = Map.empty, queues = (\<lambda>q. []), open_fds = {}, sock_files = {},
             sent = [], naps = 0\<rparr>"

definition free :: "addr \<Rightarrow> world \<Rightarrow> world" where
  "free a w = w\<lparr>heap := (heap w)(a := None)\<rparr>"

text \<open>\<open>FreePacket\<close> (lines 22 to 25): frees the packet and all data it points to.\<close>

definition FreePacket :: "addr \<Rightarrow> world \<Rightarrow> fault + world" where
  "FreePacket packet w =
     (case heap w packet of
        Some (Struct s) \<Rightarrow> Inr (free packet (free (data s) w))
      | _ \<Rightarrow> Inl BadPointer)"

text \<open>A packet read through its pointers: the struct and the payload block it points to.\<close>

definition with_payload :: "addr EVPacket \<Rightarrow> u8 list \<Rightarrow> u8 list EVPacket" where
  "with_payload s bs =
     \<lparr>command = command s, packetID = packetID s, dataSize = dataSize s, data = bs\<rparr>"

definition load_packet :: "world \<Rightarrow> addr \<Rightarrow> fault + u8 list EVPacket" where
  "load_packet w p =
     (case heap w p of
        Some (Struct s) \<Rightarrow>
          (case heap w (data s) of
             Some (Bytes bs) \<Rightarrow> Inr (with_payload s bs)
           | _ \<Rightarrow> Inl BadPointer)
      | _ \<Rightarrow> Inl BadPointer)"

text \<open>
  A \<open>std::thread\<close> member is either joinable (a worker was started and has not been joined)
  or not.
\<close>

datatype thread = NotJoinable | Joinable

text \<open>
  The members of \<open>class Bridge\<close> that bridge.cpp uses (socket build). \<open>txQueue\<close> and
  \<open>rxQueue\<close> are the references \<open>_txQueue\<close> and \<open>_rxQueue\<close>.
\<close>

record Bridge =
  txQueue :: qid
  rxQueue :: qid
  tx_run :: bool
  rx_run :: bool
  tx_sock :: int
  rx_sock :: int
  client_tx_sock :: int
  client_rx_sock :: int
  tx_worker :: thread
  rx_worker :: thread
  tx_connection_string :: string
  rx_connection_string :: string
  tx_buff :: "u8 list"
  rxBuff :: "u8 list"

text \<open>
  The constructor (lines 60 to 95, socket build). \<open>base_path\<close> is a constant of bridge.hpp
  and a parameter here; \<open>crs\<close>, \<open>tb\<close> and \<open>rb\<close> are the members the constructor leaves
  uninitialised (\<open>client_rx_sock\<close> and the two buffers).
\<close>

definition Bridge_ctor ::
  "string \<Rightarrow> string \<Rightarrow> qid \<Rightarrow> qid \<Rightarrow> int \<Rightarrow> u8 list \<Rightarrow> u8 list \<Rightarrow> Bridge" where
  "Bridge_ctor base_path pipeName txQ rxQ crs tb rb =
     \<lparr>txQueue = txQ, rxQueue = rxQ, tx_run = False, rx_run = False,
      tx_sock = - 1, rx_sock = - 1, client_tx_sock = - 1, client_rx_sock = crs,
      tx_worker = NotJoinable, rx_worker = NotJoinable,
      tx_connection_string = base_path @ pipeName @ ''TX'',
      rx_connection_string = base_path @ pipeName @ ''RX'',
      tx_buff = tb, rxBuff = rb\<rparr>"

section \<open>The transmit worker: one turn of the loop\<close>

text \<open>
  The body of \<open>while(tx_run.load())\<close> in \<open>TxJob\<close> (lines 155 to 181). The emptiness test
  reads \<open>_txQueue\<close>, the member reference; \<open>front\<close> and \<open>pop\<close> are called on \<open>_gtxQueue\<close>,
  the global. The result of \<open>send\<close> is not looked at; the packet is released with
  \<open>free(txPacket)\<close>.
\<close>

definition TxJob_iter :: "Bridge \<Rightarrow> world \<Rightarrow> fault + (Bridge \<times> world)" where
  "TxJob_iter b w =
     (if queues w (txQueue b) = [] then Inr (b, w\<lparr>naps := naps w + 1\<rparr>)
      else
        case queues w gtxQueue of
          [] \<Rightarrow> Inl EmptyQueueFront
        | txPacket # rest \<Rightarrow>
            let w1 = w\<lparr>queues := (queues w)(gtxQueue := rest)\<rparr> in
            case load_packet w1 txPacket of
              Inl e \<Rightarrow> Inl e
            | Inr pkt \<Rightarrow>
                (case tx_fill (tx_buff b) pkt of
                   Inl e \<Rightarrow> Inl e
                 | Inr (buf, packet_size) \<Rightarrow>
                     Inr (b\<lparr>tx_buff := buf\<rparr>,
                          free txPacket (w1\<lparr>sent := sent w1 @ [wire_bytes buf packet_size]\<rparr>))))"

text \<open>
  What a producer does, as \<open>runSocketTest\<close> shows it: a packet is \<open>malloc\<close>ed at \<open>a\<close>, its
  payload at \<open>d\<close>, both are filled in, and the pointer is pushed on a queue.
\<close>

definition new_packet :: "addr \<Rightarrow> addr \<Rightarrow> u16 \<Rightarrow> u16 \<Rightarrow> u8 list \<Rightarrow> world \<Rightarrow> world" where
  "new_packet a d c i bs w =
     w\<lparr>heap := (heap w)(a \<mapsto> Struct \<lparr>command = c, packetID = i,
                                        dataSize = of_nat (length bs), data = d\<rparr>,
                          d \<mapsto> Bytes bs)\<rparr>"

definition queue_push :: "qid \<Rightarrow> addr \<Rightarrow> world \<Rightarrow> world" where
  "queue_push q a w = w\<lparr>queues := (queues w)(q := queues w q @ [a])\<rparr>"

text \<open>
  \<open>runSocketTest\<close> (lines 640 to 667) up to the construction of the bridge: the test packet
  is allocated at \<open>tp\<close>, its payload at \<open>d\<close>, and pushed on \<open>_gtxQueue\<close>.
\<close>

definition testPacket :: "addr \<Rightarrow> addr EVPacket" where
  "testPacket d = \<lparr>command = 1, packetID = 0x0808, dataSize = 5, data = d\<rparr>"

definition runSocketTest_world :: "addr \<Rightarrow> addr \<Rightarrow> world \<Rightarrow> world" where
  "runSocketTest_world tp d w =
     w\<lparr>heap := (heap w)(tp \<mapsto> Struct (testPacket d), d \<mapsto> Bytes [1, 2, 3, 4, 5]),
       queues := (queues w)(gtxQueue := queues w gtxQueue @ [tp])\<rparr>"

definition runSocketTest_bridge :: "string \<Rightarrow> int \<Rightarrow> u8 list \<Rightarrow> u8 list \<Rightarrow> Bridge" where
  "runSocketTest_bridge base_path crs tb rb =
     Bridge_ctor base_path ''testPipe'' gtxQueue grxQueue crs tb rb"

text \<open>
  A bridge built on a transmit queue of its own (queue 2, not \<open>_gtxQueue\<close>), on which a
  producer has pushed three packets with the packetIDs 1, 2 and 3.
\<close>

definition own_queue_world :: world where
  "own_queue_world =
     queue_push 2 14 (new_packet 14 15 7 3 [30]
       (queue_push 2 12 (new_packet 12 13 7 2 [20]
         (queue_push 2 10 (new_packet 10 11 7 1 [10] world0)))))"

definition own_queue_bridge :: Bridge where
  "own_queue_bridge = Bridge_ctor ''/tmp/'' ''pipe'' 2 3 0 (replicate 4096 0) (replicate 4096 0)"

text \<open>
  The bridge of \<open>runSocketTest\<close> with the base path \<open>/tmp/\<close> and zeroed buffers, the
  concrete bridge of the examples below.
\<close>

definition testBridge :: Bridge where
  "testBridge = runSocketTest_bridge ''/tmp/'' 0 (replicate 4096 0) (replicate 4096 0)"

section \<open>The receive worker: one turn of the loop\<close>

text \<open>
  What one turn of \<open>while(rx_run.load())\<close> did: the byte counts it asked the transport for,
  the packet it rebuilt and printed (if any), how the turn ended, how many 500 microsecond
  sleeps it took, and whether it logged a disconnect or read error.
\<close>

datatype flow = EndOfBody | Continue | Break

record rx_trace =
  reads :: "nat list"
  delivered :: "u8 list EVPacket option"
  flow :: flow
  slept :: nat
  reported :: bool

text \<open>
  The common tail of a turn (lines 284 to 314): the buffer is printed, the packet is rebuilt,
  printed with \<open>PrintPacket\<close> and released with \<open>FreePacket\<close>. \<open>rd\<close>, \<open>sl\<close> and \<open>rep\<close>
  are what the turn did before: its read requests, its sleeps, whether it logged.
\<close>

definition rx_process ::
  "nat list \<Rightarrow> nat \<Rightarrow> bool \<Rightarrow> u8 \<Rightarrow> Bridge \<Rightarrow> fault + (Bridge \<times> rx_trace)" where
  "rx_process rd sl rep uninit b =
     (case reconstruct (rxBuff b) uninit of
        Inl e \<Rightarrow> Inl e
      | Inr rxPacket \<Rightarrow>
          Inr (b, \<lparr>reads = rd, delivered = Some rxPacket, flow = EndOfBody, slept = sl,
                   reported = rep\<rparr>))"

text \<open>
  The socket build (lines 271 to 283, then the common tail). The environment answers
  \<open>recv\<close> with its return value and the bytes that arrived. A positive count is processed
  whatever its size; on -1 the disconnect is logged, the run flag is cleared and control
  still falls through to the processing of \<open>rxBuff\<close>; any other value sleeps and continues.
\<close>

record recv_result =
  ret :: int
  rbytes :: "u8 list"

text \<open>\<open>rxBuff\<close> after \<open>recv(client_rx_sock, rxBuff, BRIDGE_BUFFER_SIZE, 0)\<close> returned a positive count.\<close>

definition recv_into :: "u8 list \<Rightarrow> recv_result \<Rightarrow> u8 list" where
  "recv_into buf r = buf_write buf 0 (take (nat (ret r)) (rbytes r))"

definition RxJob_iter_unix :: "recv_result \<Rightarrow> u8 \<Rightarrow> Bridge \<Rightarrow> fault + (Bridge \<times> rx_trace)" where
  "RxJob_iter_unix r uninit b =
     (if length (rxBuff b) < BRIDGE_BUFFER_SIZE then Inl BufferOverrun
      else
        let packet_size = ret r in
        if packet_size > 0 then
          rx_process [BRIDGE_BUFFER_SIZE] 0 False uninit (b\<lparr>rxBuff := recv_into (rxBuff b) r\<rparr>)
        else if packet_size = - 1 then
          rx_process [BRIDGE_BUFFER_SIZE] 0 True uninit (b\<lparr>rx_run := False\<rparr>)
        else
          Inr (b, \<lparr>reads = [BRIDGE_BUFFER_SIZE], delivered = None,
                    flow = Continue, slept = 1, reported = False\<rparr>))"

text \<open>
  The named-pipe build (lines 229 to 268, then the common tail). The environment answers
  each \<open>ReadFile\<close> with its return value, the value of \<open>GetLastError\<close> and the bytes that
  arrived. After a failed read, error 234 (more data) is not an error, error 109 sleeps and
  continues, any other error is logged and breaks. \<open>RxJob_win_payload\<close> is the code from
  line 247 on, entered after a header read that succeeded or failed with error 234.
\<close>

record ReadFile_result =
  val :: int
  err :: nat
  bytes :: "u8 list"

text \<open>The buffer after \<open>ReadFile(rx_hPipe, rxBuff + off, n, &bytes_read, NULL)\<close>.\<close>

definition ReadFile_into :: "u8 list \<Rightarrow> nat \<Rightarrow> nat \<Rightarrow> ReadFile_result \<Rightarrow> u8 list" where
  "ReadFile_into buf off n r = buf_write buf off (take n (bytes r))"

definition RxJob_win_payload :: "ReadFile_result \<Rightarrow> u8 \<Rightarrow> Bridge \<Rightarrow> fault + (Bridge \<times> rx_trace)" where
  "RxJob_win_payload pay uninit b =
     (let dataSize = load16 (rxBuff b) 2 in
      if unat dataSize < BRIDGE_BUFFER_SIZE - 6 then
        (let b1 = b\<lparr>rxBuff := ReadFile_into (rxBuff b) 6 (unat dataSize) pay\<rparr>;
             rd = [6, unat dataSize]
         in if val pay = 0 then
              (if err pay = 234 then rx_process rd 1 False uninit b1
               else if err pay = 109 then
                 Inr (b1, \<lparr>reads = rd, delivered = None, flow = Continue, slept = 1,
                           reported = False\<rparr>)
               else
                 Inr (b1, \<lparr>reads = rd, delivered = None, flow = Break, slept = 0,
                           reported = True\<rparr>))
            else rx_process rd 0 False uninit b1)
      else
        Inr (b, \<lparr>reads = [6], delivered = None, flow = Continue, slept = 0,
                  reported = False\<rparr>))"

definition RxJob_iter_win ::
  "ReadFile_result \<Rightarrow> ReadFile_result \<Rightarrow> u8 \<Rightarrow> Bridge \<Rightarrow> fault + (Bridge \<times> rx_trace)" where
  "RxJob_iter_win hdr pay uninit b =
     (if length (rxBuff b) < BRIDGE_BUFFER_SIZE then Inl BufferOverrun
      else
        let b1 = b\<lparr>rxBuff := ReadFile_into (rxBuff b) 0 6 hdr\<rparr> in
        if val hdr = 0 then
          (if err hdr = 234 then RxJob_win_payload pay uninit b1
           else if err hdr = 109 then
             Inr (b1, \<lparr>reads = [6], delivered = None, flow = Continue, slept = 1,
                       reported = False\<rparr>)
           else
             Inr (b1, \<lparr>reads = [6], delivered = None, flow = Break, slept = 0,
                       reported = True\<rparr>))
        else RxJob_win_payload pay uninit b1)"

text \<open>The trace of a turn that ended without a fault.\<close>

definition trace_of :: "fault + (Bridge \<times> rx_trace) \<Rightarrow> rx_trace option" where
  "trace_of r = (case r of Inl e \<Rightarrow> None | Inr (b, t) \<Rightarrow> Some t)"

section \<open>The receive worker: the loop\<close>

text \<open>
  The loop of the socket build over the answers of \<open>recv\<close>, one per turn. When the answers
  run out with the run flag still set the worker is \<open>InLoop\<close>: it has not left the loop
  after that many turns. \<open>Exited\<close> is the loop left, through its test or a \<open>break\<close>.
\<close>

datatype status = Exited | InLoop

fun RxJob_loop_unix ::
  "recv_result list \<Rightarrow> u8 \<Rightarrow> Bridge \<Rightarrow> fault + (status \<times> Bridge \<times> rx_trace list)" where
  "RxJob_loop_unix [] uninit b = Inr (if rx_run b then InLoop else Exited, b, [])"
| "RxJob_loop_unix (r # rs) uninit b =
     (if \<not> rx_run b then Inr (Exited, b, [])
      else
        case RxJob_iter_unix r uninit b of
          Inl e \<Rightarrow> Inl e
        | Inr (b1, t) \<Rightarrow>
            if flow t = Break then Inr (Exited, b1, [t])
            else
              (case RxJob_loop_unix rs uninit b1 of
                 Inl e \<Rightarrow> Inl e
               | Inr (st, b2, ts) \<Rightarrow> Inr (st, b2, t # ts)))"

section \<open>The transmit worker: the loop\<close>

text \<open>
  \<open>while(tx_run.load())\<close> for at most \<open>n\<close> turns. Nothing in the loop changes the run
  flag, so a worker whose flag is set is still \<open>InLoop\<close> when the turns are used up.
\<close>

fun TxJob_loop :: "nat \<Rightarrow> Bridge \<Rightarrow> world \<Rightarrow> fault + (status \<times> Bridge \<times> world)" where
  "TxJob_loop 0 b w = Inr (if tx_run b then InLoop else Exited, b, w)"
| "TxJob_loop (Suc n) b w =
     (if \<not> tx_run b then Inr (Exited, b, w)
      else
        case TxJob_iter b w of
          Inl e \<Rightarrow> Inl e
        | Inr (b1, w1) \<Rightarrow> TxJob_loop n b1 w1)"

text \<open>
  A queued pointer the worker can send: it points to a live struct whose payload pointer
  points to a live block of \<open>dataSize\<close> bytes, and the frame fits \<open>tx_buff\<close>.
  \<open>frame_at\<close> is the frame of the packet a pointer points to.
\<close>

definition sendable :: "Bridge \<Rightarrow> world \<Rightarrow> addr \<Rightarrow> bool" where
  "sendable b w p =
     (case load_packet w p of
        Inl e \<Rightarrow> False
      | Inr v \<Rightarrow> length (data v) = unat (dataSize v) \<and>
                 6 + unat (dataSize v) \<le> length (tx_buff b))"

definition frame_at :: "world \<Rightarrow> addr \<Rightarrow> u8 list" where
  "frame_at w p = (case load_packet w p of Inl e \<Rightarrow> [] | Inr v \<Rightarrow> frame v)"

text \<open>
  The answer of \<open>recv\<close> once the peer has closed its end of a stream socket: POSIX has
  \<open>recv\<close> return 0 when no data is left and the peer has performed an orderly shutdown,
  on every further call. \<open>idle_turn\<close> is the trace of a turn that slept and continued.
\<close>

definition no_data :: recv_result where
  "no_data = \<lparr>ret = 0, rbytes = []\<rparr>"

definition idle_turn :: rx_trace where
  "idle_turn = \<lparr>reads = [BRIDGE_BUFFER_SIZE], delivered = None, flow = Continue, slept = 1,
                reported = False\<rparr>"

section \<open>Start and stop (socket build)\<close>

text \<open>
  The environment of a start: what \<open>socket\<close> and \<open>bind\<close> return.
\<close>

record os_env =
  socket_ret :: int
  bind_ret :: int

text \<open>
  Where a worker that has not been joined stands when \<open>join\<close> is called on it. The run
  flag is read at the head of the loop only. A worker is \<open>Parked\<close> when it sits in a
  blocking call that nothing ends: \<open>accept\<close> with no peer connecting (lines 146 and 218) or
  \<open>recv\<close> with a connected peer that sends nothing (line 272). It is \<open>Polling\<close> when it
  comes back to the head of its loop (the transmit loop sleeping on an empty queue, the
  receive loop on a closed or sending peer) or has already returned. The environment
  answers \<open>join\<close> with this state, as it answers \<open>recv\<close> with bytes. \<open>join\<close> is only
  called on a joinable thread; on a parked worker it does not return, and the \<open>close\<close>
  that follows it in \<open>TxStop\<close> and \<open>RxStop\<close> is not reached.
\<close>

datatype worker_state = Parked | Polling

definition join_worker :: "worker_state \<Rightarrow> thread \<Rightarrow> fault + thread" where
  "join_worker ws t =
     (case t of
        NotJoinable \<Rightarrow> Inr NotJoinable
      | Joinable \<Rightarrow> (case ws of Parked \<Rightarrow> Inl JoinNeverReturns | Polling \<Rightarrow> Inr NotJoinable))"

text \<open>\<open>TxStop\<close> (lines 504 to 518) and \<open>RxStop\<close> (lines 530 to 543).\<close>

definition TxStop :: "worker_state \<Rightarrow> Bridge \<Rightarrow> world \<Rightarrow> fault + (int \<times> Bridge \<times> world)" where
  "TxStop ws b w =
     (let b1 = b\<lparr>tx_run := False\<rparr> in
      case join_worker ws (tx_worker b1) of
        Inl f \<Rightarrow> Inl f
      | Inr t \<Rightarrow>
          let b2 = b1\<lparr>tx_worker := t\<rparr> in
          if - 1 \<noteq> tx_sock b2
          then Inr (0, b2\<lparr>tx_sock := - 1, client_tx_sock := - 1\<rparr>,
                       w\<lparr>open_fds := open_fds w - {tx_sock b2},
                         sock_files := sock_files w - {tx_connection_string b2}\<rparr>)
          else Inr (0, b2, w))"

definition RxStop :: "worker_state \<Rightarrow> Bridge \<Rightarrow> world \<Rightarrow> fault + (int \<times> Bridge \<times> world)" where
  "RxStop ws b w =
     (let b1 = b\<lparr>rx_run := False\<rparr> in
      case join_worker ws (rx_worker b1) of
        Inl f \<Rightarrow> Inl f
      | Inr t \<Rightarrow>
          let b2 = b1\<lparr>rx_worker := t\<rparr> in
          if - 1 \<noteq> rx_sock b2
          then Inr (0, b2\<lparr>rx_sock := - 1\<rparr>,
                       w\<lparr>open_fds := open_fds w - {rx_sock b2},
                         sock_files := sock_files w - {rx_connection_string b2}\<rparr>)
          else Inr (0, b2, w))"

text \<open>
  \<open>InitTxBridge\<close> (lines 555 to 584) and \<open>InitRxBridge\<close> (lines 596 to 625): create the
  socket, unlink a stale socket file, bind. The descriptor is stored in the member before
  it is tested.
\<close>

definition InitTxBridge :: "os_env \<Rightarrow> Bridge \<Rightarrow> world \<Rightarrow> int \<times> Bridge \<times> world" where
  "InitTxBridge e b w =
     (let b1 = b\<lparr>tx_sock := socket_ret e\<rparr> in
      if tx_sock b1 < 0 then (1, b1, w)
      else
        let w1 = w\<lparr>open_fds := insert (tx_sock b1) (open_fds w),
                   sock_files := sock_files w - {tx_connection_string b1}\<rparr>
        in if bind_ret e < 0 then (2, b1, w1)
           else (0, b1, w1\<lparr>sock_files := insert (tx_connection_string b1) (sock_files w1)\<rparr>))"

definition InitRxBridge :: "os_env \<Rightarrow> Bridge \<Rightarrow> world \<Rightarrow> int \<times> Bridge \<times> world" where
  "InitRxBridge e b w =
     (let b1 = b\<lparr>rx_sock := socket_ret e\<rparr> in
      if rx_sock b1 < 0 then (1, b1, w)
      else
        let w1 = w\<lparr>open_fds := insert (rx_sock b1) (open_fds w),
                   sock_files := sock_files w - {rx_connection_string b1}\<rparr>
        in if bind_ret e < 0 then (2, b1, w1)
           else (0, b1, w1\<lparr>sock_files := insert (rx_connection_string b1) (sock_files w1)\<rparr>))"

text \<open>
  \<open>TxStart\<close> (lines 328 to 343) and \<open>RxStart\<close> (lines 355 to 370). \<open>ws\<close> is where the
  running worker stands if the start has to stop it first. Assigning the new
  \<open>std::thread\<close> to a member that is still joinable terminates the process.
\<close>

definition TxStart ::
  "worker_state \<Rightarrow> os_env \<Rightarrow> Bridge \<Rightarrow> world \<Rightarrow> fault + (int \<times> Bridge \<times> world)" where
  "TxStart ws e b w =
     (case (if tx_run b = True then TxStop ws b w else Inr (0, b, w)) of
        Inl f \<Rightarrow> Inl f
      | Inr (r, b1, w1) \<Rightarrow>
          let (err, b2, w2) = InitTxBridge e b1 w1
          in if err \<noteq> 0 then Inr (err, b2, w2)
             else
               let b3 = b2\<lparr>tx_run := True\<rparr> in
               if tx_worker b3 = Joinable then Inl Terminate
               else Inr (0, b3\<lparr>tx_worker := Joinable\<rparr>, w2))"

definition RxStart ::
  "worker_state \<Rightarrow> os_env \<Rightarrow> Bridge \<Rightarrow> world \<Rightarrow> fault + (int \<times> Bridge \<times> world)" where
  "RxStart ws e b w =
     (case (if rx_run b = True then RxStop ws b w else Inr (0, b, w)) of
        Inl f \<Rightarrow> Inl f
      | Inr (r, b1, w1) \<Rightarrow>
          let (err, b2, w2) = InitRxBridge e b1 w1
          in if err \<noteq> 0 then Inr (err, b2, w2)
             else
               let b3 = b2\<lparr>rx_run := True\<rparr> in
               if rx_worker b3 = Joinable then Inl Terminate
               else Inr (0, b3\<lparr>rx_worker := Joinable\<rparr>, w2))"

text \<open>
  The bridge of \<open>runSocketTest\<close> after \<open>TxStart\<close> and \<open>RxStart\<close> succeeded, with the
  transmit socket on descriptor 3 and the receive socket on descriptor 4.
\<close>

definition startedBridge :: Bridge where
  "startedBridge =
     testBridge\<lparr>tx_run := True, rx_run := True, tx_sock := 3, rx_sock := 4,
                tx_worker := Joinable, rx_worker := Joinable\<rparr>"

definition startedWorld :: world where
  "startedWorld =
     world0\<lparr>open_fds := {3, 4}, sock_files := {''/tmp/testPipeTX'', ''/tmp/testPipeRX''}\<rparr>"

section \<open>Byte order\<close>

lemma le16_lo_hi: "le16 (lo8 w) (hi8 w) = w"
  unfolding le16_def lo8_def hi8_def
  by (rule bit_word_eqI) (auto simp add: bit_simps)

lemma load16_0: "load16 (a # b # bs) 0 = le16 a b"
  by (simp add: load16_def)

lemma load16_1: "load16 (a # b # c # d # bs) 1 = le16 c d"
  by (simp add: load16_def)

lemma load16_2: "load16 (a # b # c # d # e # f # bs) 2 = le16 e f"
  by (simp add: load16_def numeral_eq_Suc)

section \<open>The frame built by the transmit worker\<close>

lemma len6:
  "6 \<le> length (buf::'a list) \<Longrightarrow> \<exists>x0 x1 x2 x3 x4 x5 rest. buf = x0 # x1 # x2 # x3 # x4 # x5 # rest"
  by (cases buf; simp; rename_tac a l; case_tac l; simp; rename_tac a l; case_tac l; simp;
      rename_tac a l; case_tac l; simp; rename_tac a l; case_tac l; simp; rename_tac a l;
      case_tac l; simp)

lemma store16_header:
  assumes "6 \<le> length buf"
  shows "store16 (store16 (store16 buf 0 c) 1 p) 2 d =
         [lo8 c, hi8 c, lo8 p, hi8 p, lo8 d, hi8 d] @ drop 6 buf"
proof -
  obtain x0 x1 x2 x3 x4 x5 rest where buf: "buf = x0 # x1 # x2 # x3 # x4 # x5 # rest"
    using len6 [OF assms] by blast
  show ?thesis
    unfolding buf store16_def by (simp add: numeral_eq_Suc)
qed

lemma length_frame:
  "length (data p) = unat (dataSize p) \<Longrightarrow> length (frame p) = 6 + unat (dataSize p)"
  by (simp add: frame_def)

lemma memcpy_into_append:
  assumes "length h = k" and "n \<le> length src" and "n \<le> length rest"
  shows "memcpy_into (h @ rest) k src n = Inr (h @ take n src @ drop n rest)"
  using assms by (simp add: memcpy_into_def)

lemma tx_fill_frame:
  assumes "6 + unat (dataSize p) \<le> length tb"
    and "unat (dataSize p) \<le> length (data p)"
  shows "tx_fill tb p =
         Inr (frame p @ drop (6 + unat (dataSize p)) tb, 6 + unat (dataSize p))"
proof -
  let ?h = "[lo8 (command p), hi8 (command p), lo8 (packetID p), hi8 (packetID p),
         lo8 (dataSize p), hi8 (dataSize p)]"
  have six: "6 \<le> length tb" using assms(1) by simp
  have hdr: "store16 (store16 (store16 tb 0 (command p)) 1 (packetID p)) 2 (dataSize p) =
        ?h @ drop 6 tb"
    by (rule store16_header [OF six])
  have cp: "memcpy_into (?h @ drop 6 tb) 6 (data p) (unat (dataSize p)) =
        Inr (?h @ take (unat (dataSize p)) (data p) @ drop (unat (dataSize p)) (drop 6 tb))"
    by (rule memcpy_into_append) (use assms in simp_all)
  have dd: "drop (unat (dataSize p)) (drop 6 tb) = drop (6 + unat (dataSize p)) tb"
    by (simp add: add.commute)
  from six have nl: "\<not> length tb < 6" by simp
  show ?thesis
    unfolding tx_fill_def Let_def hdr cp dd frame_def
    by (simp only: nl if_False sum.case append_assoc)
qed

lemma wire_bytes_frame:
  assumes "length (data p) = unat (dataSize p)"
  shows "wire_bytes (frame p @ rest) (6 + unat (dataSize p)) = frame p"
  unfolding wire_bytes_def length_frame [OF assms, symmetric] by simp

lemma buf_write_frame:
  assumes "length bs \<le> length buf"
  shows "buf_write buf 0 bs = bs @ drop (length bs) buf"
  using assms by (simp add: buf_write_def)

lemma reconstruct_frame:
  assumes "length (data p) = unat (dataSize p)"
    and "unat (dataSize p) \<le> BRIDGE_BUFFER_SIZE - 6"
  shows "reconstruct (frame p @ rest) uninit = Inr p"
proof -
  have fr: "frame p @ rest =
      lo8 (command p) # hi8 (command p) # lo8 (packetID p) # hi8 (packetID p) #
      lo8 (dataSize p) # hi8 (dataSize p) # (data p @ rest)"
    using assms(1) by (simp add: frame_def)
  have c: "load16 (frame p @ rest) 0 = command p"
    unfolding fr by (simp only: load16_0 le16_lo_hi)
  have i: "load16 (frame p @ rest) 1 = packetID p"
    unfolding fr by (simp only: load16_1 le16_lo_hi)
  have d: "load16 (frame p @ rest) 2 = dataSize p"
    unfolding fr by (simp only: load16_2 le16_lo_hi)
  have l: "\<not> length (frame p @ rest) < 6"
    by (simp add: length_frame [OF assms(1)])
  have m: "memcpy_from (frame p @ rest) 6 (unat (dataSize p)) = Inr (data p)"
    using assms(1) by (simp add: memcpy_from_def length_frame [OF assms(1)] frame_def)
  show ?thesis
    unfolding reconstruct_def Let_def c i d
    using assms(2) l m by simp
qed

section \<open>One turn of the transmit loop\<close>

lemma with_payload_sel:
  "command (with_payload s bs) = command s"
  "packetID (with_payload s bs) = packetID s"
  "dataSize (with_payload s bs) = dataSize s"
  "data (with_payload s bs) = bs"
  by (simp_all add: with_payload_def)

lemma TxJob_iter_send:
  assumes ne: "queues w (txQueue b) \<noteq> []"
    and q: "queues w gtxQueue = tp # rest"
    and s: "heap w tp = Some (Struct s)"
    and d: "heap w (data s) = Some (Bytes bs)"
    and l: "length bs = unat (dataSize s)"
    and fit: "6 + unat (dataSize s) \<le> length (tx_buff b)"
  shows "TxJob_iter b w =
         Inr (b\<lparr>tx_buff := frame (with_payload s bs) @ drop (6 + unat (dataSize s)) (tx_buff b)\<rparr>,
              w\<lparr>queues := (queues w)(gtxQueue := rest),
                sent := sent w @ [frame (with_payload s bs)],
                heap := (heap w)(tp := None)\<rparr>)"
proof -
  let ?p = "with_payload s bs"
  let ?w1 = "w\<lparr>queues := (queues w)(gtxQueue := rest)\<rparr>"
  have lp: "load_packet ?w1 tp = Inr ?p"
    using s d by (simp add: load_packet_def)
  have tf: "tx_fill (tx_buff b) ?p =
      Inr (frame ?p @ drop (6 + unat (dataSize s)) (tx_buff b), 6 + unat (dataSize s))"
    using tx_fill_frame [of ?p "tx_buff b"] l fit by (simp add: with_payload_sel)
  have wb: "wire_bytes (frame ?p @ drop (6 + unat (dataSize s)) (tx_buff b)) (6 + unat (dataSize s))
      = frame ?p"
    using wire_bytes_frame [of ?p] l by (simp add: with_payload_sel)
  show ?thesis
    unfolding TxJob_iter_def Let_def
    using ne q 
    by (simp add: lp tf wb free_def with_payload_sel)
qed

lemma frame_testPacket:
  "frame (with_payload (testPacket d) [1, 2, 3, 4, 5]) = [1, 0, 8, 8, 5, 0, 1, 2, 3, 4, 5]"
  by (simp add: frame_def testPacket_def with_payload_def lo8_def hi8_def)

lemma TxJob_iter_runSocketTest:
  assumes "tp \<noteq> d" and "length tb = BRIDGE_BUFFER_SIZE"
  shows "TxJob_iter (runSocketTest_bridge base_path crs tb rb) (runSocketTest_world tp d world0) =
         Inr ((runSocketTest_bridge base_path crs tb rb)
                \<lparr>tx_buff := [1, 0, 8, 8, 5, 0, 1, 2, 3, 4, 5] @ drop 11 tb\<rparr>,
              (runSocketTest_world tp d world0)
                \<lparr>queues := (queues (runSocketTest_world tp d world0))(gtxQueue := []),
                 sent := [[1, 0, 8, 8, 5, 0, 1, 2, 3, 4, 5]],
                 heap := (heap (runSocketTest_world tp d world0))(tp := None)\<rparr>)"
proof -
  let ?b = "runSocketTest_bridge base_path crs tb rb"
  let ?w = "runSocketTest_world tp d world0"
  have "TxJob_iter ?b ?w =
         Inr (?b\<lparr>tx_buff := frame (with_payload (testPacket d) [1, 2, 3, 4, 5]) @
                       drop (6 + unat (dataSize (testPacket d))) (tx_buff ?b)\<rparr>,
              ?w\<lparr>queues := (queues ?w)(gtxQueue := []),
                sent := sent ?w @ [frame (with_payload (testPacket d) [1, 2, 3, 4, 5])],
                heap := (heap ?w)(tp := None)\<rparr>)"
    by (rule TxJob_iter_send)
      (use assms in \<open>simp_all add: runSocketTest_bridge_def runSocketTest_world_def world0_def
          Bridge_ctor_def testPacket_def BRIDGE_BUFFER_SIZE_def\<close>)
  moreover have "6 + unat (dataSize (testPacket d)) = 11"
    by (simp add: testPacket_def)
  moreover have "sent ?w = []"
    by (simp add: runSocketTest_world_def world0_def)
  moreover have "tx_buff ?b = tb"
    by (simp add: runSocketTest_bridge_def Bridge_ctor_def)
  ultimately show ?thesis
    by (simp only: frame_testPacket append_Nil)
qed

section \<open>The test packet on the wire\<close>

text \<open>
  Claim C2. For the packet of \<open>runSocketTest\<close>, command 1, packetID 0x0808, payload
  1 2 3 4 5, the first turn of the transmit loop hands exactly 6 + 5 = 11 bytes to the
  transport: the header bytes 01 00 08 08 05 00 (command, packetID, dataSize, each
  little-endian), then the payload bytes 01 02 03 04 05.
\<close>

theorem test_packet_on_the_wire:
  assumes "tp \<noteq> d" and "length tb = BRIDGE_BUFFER_SIZE"
  shows "\<exists>b' w'.
           TxJob_iter (runSocketTest_bridge base_path crs tb rb) (runSocketTest_world tp d world0)
             = Inr (b', w') \<and>
           sent w' = [[0x01, 0x00, 0x08, 0x08, 0x05, 0x00] @ [0x01, 0x02, 0x03, 0x04, 0x05]] \<and>
           map length (sent w') = [6 + 5]"
  unfolding TxJob_iter_runSocketTest [OF assms] by simp

theorem test_packet_on_the_wire_witness:
  "\<exists>b' w'.
     TxJob_iter (runSocketTest_bridge ''/tmp/'' 0 (replicate 4096 0) (replicate 4096 0))
         (runSocketTest_world 1 2 world0) = Inr (b', w') \<and>
     sent w' = [[0x01, 0x00, 0x08, 0x08, 0x05, 0x00] @ [0x01, 0x02, 0x03, 0x04, 0x05]] \<and>
     map length (sent w') = [6 + 5]"
  using test_packet_on_the_wire [of 1 2 "replicate 4096 0" "''/tmp/''" 0 "replicate 4096 0"]
  by (simp add: BRIDGE_BUFFER_SIZE_def)

section \<open>Round trip of the framing\<close>

text \<open>
  Claim C1. For every packet whose \<open>dataSize\<close> is at most \<open>MAX_PAYLOAD\<close> (and is the length
  of its payload), the bytes that \<open>TxJob\<close> puts on the wire, \<open>6 + dataSize\<close> of them, read
  into \<open>rxBuff\<close> and rebuilt by \<open>RxJob\<close>, give a packet with the same \<open>command\<close>,
  \<open>packetID\<close>, \<open>dataSize\<close> and payload bytes.
\<close>

theorem roundtrip_framing:
  assumes "unat (dataSize p) \<le> MAX_PAYLOAD"
    and "length (data p) = unat (dataSize p)"
    and "length tb = BRIDGE_BUFFER_SIZE"
    and "length rb = BRIDGE_BUFFER_SIZE"
  shows "\<exists>buf packet_size.
           tx_fill tb p = Inr (buf, packet_size) \<and>
           packet_size = 6 + unat (dataSize p) \<and>
           reconstruct (buf_write rb 0 (wire_bytes buf packet_size)) uninit = Inr p"
proof -
  let ?n = "6 + unat (dataSize p)"
  have fit: "?n \<le> length tb"
    using assms(1,3) by (simp add: MAX_PAYLOAD_def BRIDGE_BUFFER_SIZE_def)
  have tx: "tx_fill tb p = Inr (frame p @ drop ?n tb, ?n)"
    by (rule tx_fill_frame [OF fit]) (simp add: assms(2))
  have wb: "wire_bytes (frame p @ drop ?n tb) ?n = frame p"
    by (rule wire_bytes_frame [OF assms(2)])
  have lf: "length (frame p) \<le> length rb"
    using fit assms(3,4) by (simp add: length_frame [OF assms(2)])
  have rx: "reconstruct (buf_write rb 0 (frame p)) uninit = Inr p"
    unfolding buf_write_frame [OF lf]
    by (rule reconstruct_frame [OF assms(2)]) (use assms(1) in \<open>simp add: MAX_PAYLOAD_def\<close>)
  show ?thesis
    using tx wb rx by simp
qed

theorem roundtrip_framing_witness:
  "\<exists>buf packet_size.
     tx_fill (replicate 4096 0) \<lparr>command = 1, packetID = 0x0808, dataSize = 5, data = [1, 2, 3, 4, 5]\<rparr>
       = Inr (buf, packet_size) \<and>
     packet_size = 6 + unat (5 :: u16) \<and>
     reconstruct (buf_write (replicate 4096 7) 0 (wire_bytes buf packet_size)) 0
       = Inr \<lparr>command = 1, packetID = 0x0808, dataSize = 5, data = [1, 2, 3, 4, 5]\<rparr>"
  using roundtrip_framing [of "\<lparr>command = 1, packetID = 0x0808, dataSize = 5, data = [1, 2, 3, 4, 5]\<rparr>"
      "replicate 4096 0" "replicate 4096 7" 0]
  by (simp add: MAX_PAYLOAD_def BRIDGE_BUFFER_SIZE_def)

section \<open>Release of a transmitted packet\<close>

text \<open>
  Whenever a turn of the transmit loop sends a packet, the struct is freed and the payload
  block it points to stays allocated.
\<close>

lemma TxJob_iter_payload_kept:
  assumes "queues w (txQueue b) \<noteq> []"
    and "queues w gtxQueue = tp # rest"
    and "heap w tp = Some (Struct s)"
    and "heap w (data s) = Some (Bytes bs)"
    and "length bs = unat (dataSize s)"
    and "6 + unat (dataSize s) \<le> length (tx_buff b)"
  shows "\<exists>b' w'. TxJob_iter b w = Inr (b', w') \<and> heap w' tp = None \<and>
           heap w' (data s) = Some (Bytes bs)"
proof -
  have "data s \<noteq> tp" using assms(3,4) by auto
  then show ?thesis
    unfolding TxJob_iter_send [OF assms] using assms(4) by simp
qed

text \<open>
  Claim C9 (the code diverges). The claim: once the bytes of a dequeued packet are written,
  the packet is freed in full, the struct and the payload buffer. At the packet of
  \<open>runSocketTest\<close> (struct at address 1, payload at address 2) the turn of the loop frees
  the struct and leaves the payload block allocated, where \<open>FreePacket\<close>, which the receive
  worker calls, releases both.
\<close>

theorem TxJob_leaves_payload_allocated:
  "\<exists>b' w'.
     TxJob_iter (runSocketTest_bridge ''/tmp/'' 0 (replicate 4096 0) (replicate 4096 0))
         (runSocketTest_world 1 2 world0) = Inr (b', w') \<and>
     heap w' 1 = None \<and>
     heap w' 2 = Some (Bytes [1, 2, 3, 4, 5]) \<and>
     (\<exists>w''. FreePacket 1 (runSocketTest_world 1 2 world0) = Inr w'' \<and>
            heap w'' 1 = None \<and> heap w'' 2 = None)"
proof -
  have "(1::addr) \<noteq> 2" and "length (replicate 4096 (0::u8)) = BRIDGE_BUFFER_SIZE"
    by (simp_all add: BRIDGE_BUFFER_SIZE_def)
  note step = TxJob_iter_runSocketTest [OF this]
  show ?thesis
    unfolding step
    by (simp add: runSocketTest_world_def world0_def FreePacket_def free_def testPacket_def)
qed

section \<open>The queue the transmit worker pops\<close>

text \<open>
  When the bridge was built on \<open>_gtxQueue\<close> itself, the queue tested and the queue popped
  are one object, and the loop sends the frames of the queued packets in queue order.
\<close>

lemma sendableE:
  assumes "sendable b w p"
  obtains s bs where "heap w p = Some (Struct s)" "heap w (data s) = Some (Bytes bs)"
    "length bs = unat (dataSize s)" "6 + unat (dataSize s) \<le> length (tx_buff b)"
    "frame_at w p = frame (with_payload s bs)"
  using assms
  by (auto simp add: sendable_def frame_at_def load_packet_def with_payload_sel
      split: option.splits obj.splits sum.splits)

lemma load_packet_after_free:
  assumes "heap w p = Some (Struct s)" and "q \<noteq> p" and "sendable b w q"
  shows "load_packet (w\<lparr>queues := qs, sent := ss, heap := (heap w)(p := None)\<rparr>) q = load_packet w q"
proof -
  from assms(3) obtain s' bs' where q: "heap w q = Some (Struct s')"
    "heap w (data s') = Some (Bytes bs')"
    by (rule sendableE)
  from q(2) assms(1) have "data s' \<noteq> p" by auto
  with q assms(2) show ?thesis
    by (simp add: load_packet_def)
qed

lemma TxJob_loop_fifo:
  assumes "txQueue b = gtxQueue" and "tx_run b" and "queues w gtxQueue = ps"
    and "distinct ps" and "\<forall>p \<in> set ps. sendable b w p"
  shows "\<exists>b' w'. TxJob_loop (length ps) b w = Inr (InLoop, b', w') \<and>
           sent w' = sent w @ map (frame_at w) ps \<and> queues w' gtxQueue = []"
  using assms
proof (induction ps arbitrary: b w)
  case Nil
  then show ?case by simp
next
  case (Cons p rest)
  from Cons.prems(5) have sp: "sendable b w p" by simp
  then obtain s bs where h: "heap w p = Some (Struct s)" "heap w (data s) = Some (Bytes bs)"
    "length bs = unat (dataSize s)" "6 + unat (dataSize s) \<le> length (tx_buff b)"
    and fa: "frame_at w p = frame (with_payload s bs)"
    by (rule sendableE)
  let ?b1 = "b\<lparr>tx_buff := frame (with_payload s bs) @ drop (6 + unat (dataSize s)) (tx_buff b)\<rparr>"
  let ?w1 = "w\<lparr>queues := (queues w)(gtxQueue := rest),
                sent := sent w @ [frame (with_payload s bs)],
                heap := (heap w)(p := None)\<rparr>"
  have ne: "queues w (txQueue b) \<noteq> []"
    using Cons.prems(1,3) by simp
  have step: "TxJob_iter b w = Inr (?b1, ?w1)"
    by (rule TxJob_iter_send [OF ne Cons.prems(3) h])
  have lenb: "length (tx_buff ?b1) = length (tx_buff b)"
    using h(3,4) by (simp add: length_frame with_payload_sel)
  have same: "load_packet ?w1 q = load_packet w q" if "q \<in> set rest" for q
  proof -
    from that Cons.prems(4) have "q \<noteq> p" by auto
    moreover from that Cons.prems(5) have "sendable b w q" by simp
    ultimately show ?thesis
      using h(1) by (rule load_packet_after_free [rotated])
  qed
  have send1: "\<forall>q \<in> set rest. sendable ?b1 ?w1 q"
  proof
    fix q assume q: "q \<in> set rest"
    with Cons.prems(5) have "sendable b w q" by simp
    then show "sendable ?b1 ?w1 q"
      unfolding sendable_def same [OF q] lenb .
  qed
  have fr1: "map (frame_at ?w1) rest = map (frame_at w) rest"
    by (rule map_cong [OF refl]) (simp only: frame_at_def same)
  have "\<exists>b' w'. TxJob_loop (length rest) ?b1 ?w1 = Inr (InLoop, b', w') \<and>
           sent w' = sent ?w1 @ map (frame_at ?w1) rest \<and> queues w' gtxQueue = []"
    by (rule Cons.IH) (use Cons.prems send1 in simp_all)
  then obtain b' w' where r: "TxJob_loop (length rest) ?b1 ?w1 = Inr (InLoop, b', w')"
    "sent w' = sent ?w1 @ map (frame_at ?w1) rest" "queues w' gtxQueue = []"
    by blast
  have "TxJob_loop (length (p # rest)) b w = Inr (InLoop, b', w')"
    using Cons.prems(2) by (simp add: step r(1))
  moreover have "sent w' = sent w @ map (frame_at w) (p # rest)"
    using r(2) by (simp add: fr1 fa)
  ultimately show ?case
    using r(3) by blast
qed

lemma own_queue_world_queues:
  "queues own_queue_world 2 = [10, 12, 14]" "queues own_queue_world gtxQueue = []"
  by (simp_all add: own_queue_world_def queue_push_def new_packet_def world0_def gtxQueue_def)

text \<open>
  Claim C4 (the code diverges). The claim: the worker removes and sends the front packet of
  the queue it tested for emptiness, the one given to the constructor. With a bridge built
  on a queue of its own holding the packets 1, 2, 3: if \<open>_gtxQueue\<close> is empty the worker
  calls \<open>front()\<close> on the empty global queue; if \<open>_gtxQueue\<close> holds another packet (ID 9),
  that packet is sent and the bridge's own queue keeps all three packets.
\<close>

theorem TxJob_front_of_global_queue:
  "queues own_queue_world (txQueue own_queue_bridge) = [10, 12, 14] \<and>
   TxJob_iter own_queue_bridge own_queue_world = Inl EmptyQueueFront \<and>
   (\<exists>b' w'. TxJob_iter own_queue_bridge (queue_push gtxQueue 20 (new_packet 20 21 7 9 [90] own_queue_world))
        = Inr (b', w') \<and>
      sent w' = [[7, 0, 9, 0, 1, 0, 90]] \<and>
      queues w' (txQueue own_queue_bridge) = [10, 12, 14])"
proof -
  let ?b = own_queue_bridge
  let ?w = "queue_push gtxQueue 20 (new_packet 20 21 7 9 [90] own_queue_world)"
  have tq: "txQueue ?b = 2" by (simp add: own_queue_bridge_def Bridge_ctor_def)
  have a: "queues own_queue_world (txQueue ?b) = [10, 12, 14]"
    by (simp add: tq own_queue_world_queues)
  have b: "TxJob_iter ?b own_queue_world = Inl EmptyQueueFront"
    by (simp add: TxJob_iter_def tq own_queue_world_queues)
  have q2: "queues ?w 2 = [10, 12, 14]"
    by (simp add: queue_push_def new_packet_def own_queue_world_queues gtxQueue_def)
  have "TxJob_iter ?b ?w =
      Inr (?b\<lparr>tx_buff := frame (with_payload \<lparr>command = 7, packetID = 9, dataSize = 1, data = 21\<rparr> [90]) @
              drop (6 + unat (dataSize \<lparr>command = 7 :: u16, packetID = 9 :: u16, dataSize = 1 :: u16, data = 21 :: addr\<rparr>)) (tx_buff ?b)\<rparr>,
           ?w\<lparr>queues := (queues ?w)(gtxQueue := []),
               sent := sent ?w @ [frame (with_payload \<lparr>command = 7, packetID = 9, dataSize = 1, data = 21\<rparr> [90])],
               heap := (heap ?w)(20 := None)\<rparr>)"
    by (rule TxJob_iter_send)
      (simp_all add: tq q2 queue_push_def new_packet_def own_queue_world_queues
        own_queue_bridge_def Bridge_ctor_def)
  moreover have "sent ?w = []"
    by (simp add: queue_push_def new_packet_def own_queue_world_def world0_def)
  moreover have "frame (with_payload \<lparr>command = 7, packetID = 9, dataSize = 1, data = 21\<rparr> [90])
      = [7, 0, 9, 0, 1, 0, 90]"
    by (simp add: frame_def with_payload_def lo8_def hi8_def)
  moreover have "(2::qid) \<noteq> gtxQueue"
    by (simp add: gtxQueue_def)
  ultimately have c: "\<exists>b' w'. TxJob_iter ?b ?w = Inr (b', w') \<and>
      sent w' = [[7, 0, 9, 0, 1, 0, 90]] \<and> queues w' (txQueue ?b) = [10, 12, 14]"
    by (simp add: tq q2)
  from a b c show ?thesis by blast
qed

section \<open>One turn of the receive loop\<close>

lemma length_buf_write:
  "off \<le> length buf \<Longrightarrow> length (buf_write buf off bs) = length buf"
  by (auto simp add: buf_write_def min_def)

lemma length_recv_into: "length (recv_into buf r) = length buf"
  by (simp add: recv_into_def length_buf_write)

lemma length_ReadFile_into:
  "off \<le> length buf \<Longrightarrow> length (ReadFile_into buf off n r) = length buf"
  by (simp add: ReadFile_into_def length_buf_write)

lemma reconstruct_oversize:
  assumes "6 \<le> length rb" and "BRIDGE_BUFFER_SIZE - 6 < unat (load16 rb 2)"
  shows "reconstruct rb uninit =
         Inr \<lparr>command = load16 rb 0, packetID = load16 rb 1, dataSize = 1, data = [uninit]\<rparr>"
  using assms by (simp add: reconstruct_def Let_def)

lemma reconstruct_in_range:
  assumes "length rb = BRIDGE_BUFFER_SIZE" and "unat (load16 rb 2) \<le> BRIDGE_BUFFER_SIZE - 6"
  shows "reconstruct rb uninit =
         Inr \<lparr>command = load16 rb 0, packetID = load16 rb 1, dataSize = load16 rb 2,
              data = take (unat (load16 rb 2)) (drop 6 rb)\<rparr>"
  using assms by (simp add: reconstruct_def Let_def memcpy_from_def BRIDGE_BUFFER_SIZE_def)

lemma reconstruct_total:
  assumes "length rb = BRIDGE_BUFFER_SIZE"
  shows "\<exists>pkt. reconstruct rb uninit = Inr pkt \<and> unat (dataSize pkt) \<le> MAX_PAYLOAD \<and>
           length (data pkt) = unat (dataSize pkt)"
proof (cases "unat (load16 rb 2) \<le> BRIDGE_BUFFER_SIZE - 6")
  case True
  then show ?thesis
    using assms by (simp add: reconstruct_in_range MAX_PAYLOAD_def BRIDGE_BUFFER_SIZE_def)
next
  case False
  then have "reconstruct rb uninit =
         Inr \<lparr>command = load16 rb 0, packetID = load16 rb 1, dataSize = 1, data = [uninit]\<rparr>"
    using assms by (intro reconstruct_oversize) (simp_all add: BRIDGE_BUFFER_SIZE_def)
  then show ?thesis
    by (simp add: MAX_PAYLOAD_def BRIDGE_BUFFER_SIZE_def)
qed


lemma RxJob_iter_unix_data:
  assumes "length (rxBuff b) = BRIDGE_BUFFER_SIZE" and "0 < ret r"
  shows "\<exists>pkt. reconstruct (recv_into (rxBuff b) r) uninit = Inr pkt \<and>
           unat (dataSize pkt) \<le> MAX_PAYLOAD \<and> length (data pkt) = unat (dataSize pkt) \<and>
           RxJob_iter_unix r uninit b =
             Inr (b\<lparr>rxBuff := recv_into (rxBuff b) r\<rparr>,
                  \<lparr>reads = [BRIDGE_BUFFER_SIZE], delivered = Some pkt, flow = EndOfBody,
                   slept = 0, reported = False\<rparr>)"
proof -
  have "length (recv_into (rxBuff b) r) = BRIDGE_BUFFER_SIZE"
    using assms(1) by (simp add: length_recv_into)
  from reconstruct_total [OF this, of uninit] obtain pkt where
    "reconstruct (recv_into (rxBuff b) r) uninit = Inr pkt"
    "unat (dataSize pkt) \<le> MAX_PAYLOAD" "length (data pkt) = unat (dataSize pkt)"
    by blast
  then show ?thesis
    using assms by (simp add: RxJob_iter_unix_def rx_process_def Let_def)
qed

lemma RxJob_iter_unix_error:
  assumes "length (rxBuff b) = BRIDGE_BUFFER_SIZE" and "ret r = - 1"
  shows "\<exists>pkt. reconstruct (rxBuff b) uninit = Inr pkt \<and>
           unat (dataSize pkt) \<le> MAX_PAYLOAD \<and> length (data pkt) = unat (dataSize pkt) \<and>
           RxJob_iter_unix r uninit b =
             Inr (b\<lparr>rx_run := False\<rparr>,
                  \<lparr>reads = [BRIDGE_BUFFER_SIZE], delivered = Some pkt, flow = EndOfBody,
                   slept = 0, reported = True\<rparr>)"
proof -
  from reconstruct_total [OF assms(1), of uninit] obtain pkt where
    "reconstruct (rxBuff b) uninit = Inr pkt"
    "unat (dataSize pkt) \<le> MAX_PAYLOAD" "length (data pkt) = unat (dataSize pkt)"
    by blast
  then show ?thesis
    using assms by (simp add: RxJob_iter_unix_def rx_process_def Let_def)
qed

lemma RxJob_iter_unix_nothing:
  assumes "BRIDGE_BUFFER_SIZE \<le> length (rxBuff b)" and "\<not> 0 < ret r" and "ret r \<noteq> - 1"
  shows "RxJob_iter_unix r uninit b =
           Inr (b, \<lparr>reads = [BRIDGE_BUFFER_SIZE], delivered = None, flow = Continue,
                    slept = 1, reported = False\<rparr>)"
  using assms by (simp add: RxJob_iter_unix_def rx_process_def Let_def)

lemma RxJob_win_payload_skip:
  assumes "\<not> unat (load16 (rxBuff b) 2) < BRIDGE_BUFFER_SIZE - 6"
  shows "RxJob_win_payload pay uninit b =
           Inr (b, \<lparr>reads = [6], delivered = None, flow = Continue, slept = 0,
                    reported = False\<rparr>)"
  using assms by (simp add: RxJob_win_payload_def rx_process_def Let_def)

lemma RxJob_win_payload_read:
  assumes "length (rxBuff b) = BRIDGE_BUFFER_SIZE"
    and "unat (load16 (rxBuff b) 2) < BRIDGE_BUFFER_SIZE - 6"
  shows "\<exists>b' t. RxJob_win_payload pay uninit b = Inr (b', t) \<and>
           reads t = [6, unat (load16 (rxBuff b) 2)] \<and>
           length (rxBuff b') = BRIDGE_BUFFER_SIZE \<and>
           (\<forall>pkt. delivered t = Some pkt \<longrightarrow>
                  unat (dataSize pkt) \<le> MAX_PAYLOAD \<and> length (data pkt) = unat (dataSize pkt))"
proof -
  let ?rb = "ReadFile_into (rxBuff b) 6 (unat (load16 (rxBuff b) 2)) pay"
  have len: "length ?rb = BRIDGE_BUFFER_SIZE"
    using assms(1) by (simp add: length_ReadFile_into BRIDGE_BUFFER_SIZE_def)
  from reconstruct_total [OF len, of uninit] obtain pkt where
    "reconstruct ?rb uninit = Inr pkt"
    "unat (dataSize pkt) \<le> MAX_PAYLOAD" "length (data pkt) = unat (dataSize pkt)"
    by blast
  then show ?thesis
    using assms(2) len by (simp add: RxJob_win_payload_def rx_process_def Let_def)
qed

lemma RxJob_iter_win_header_ok:
  assumes "BRIDGE_BUFFER_SIZE \<le> length (rxBuff b)" and "val hdr \<noteq> 0 \<or> err hdr = 234"
  shows "RxJob_iter_win hdr pay uninit b =
           RxJob_win_payload pay uninit (b\<lparr>rxBuff := ReadFile_into (rxBuff b) 0 6 hdr\<rparr>)"
  using assms by (auto simp add: RxJob_iter_win_def Let_def)

lemma RxJob_iter_win_header_failed:
  assumes "BRIDGE_BUFFER_SIZE \<le> length (rxBuff b)" and "\<not> (val hdr \<noteq> 0 \<or> err hdr = 234)"
  shows "RxJob_iter_win hdr pay uninit b =
           Inr (b\<lparr>rxBuff := ReadFile_into (rxBuff b) 0 6 hdr\<rparr>,
                \<lparr>reads = [6], delivered = None,
                 flow = (if err hdr = 109 then Continue else Break),
                 slept = (if err hdr = 109 then 1 else 0),
                 reported = (err hdr \<noteq> 109)\<rparr>)"
  using assms by (auto simp add: RxJob_iter_win_def Let_def)

lemma header_bytes_eval:
  "ReadFile_into (replicate 4096 0) 0 6 \<lparr>val = 1, err = 0, bytes = [a0, a1, a2, a3, a4, a5]\<rparr>
     = [a0, a1, a2, a3, a4, a5] @ replicate 4090 0"
  by (simp add: ReadFile_into_def buf_write_def)

lemma load16_2_app: "load16 ([a0, a1, a2, a3, a4, a5] @ rest) 2 = le16 a4 a5"
  by (simp add: load16_2)

lemma recv_bytes_eval:
  "recv_into (replicate 4096 0) \<lparr>ret = 3, rbytes = [1, 0, 8]\<rparr> = [1, 0, 8] @ replicate 4093 0"
  by (simp add: recv_into_def buf_write_def)


lemma testBridge_rxBuff: "rxBuff testBridge = replicate 4096 0"
  by (simp add: testBridge_def runSocketTest_bridge_def Bridge_ctor_def)

lemma testBridge_len: "length (rxBuff testBridge) = BRIDGE_BUFFER_SIZE"
  by (simp add: testBridge_rxBuff BRIDGE_BUFFER_SIZE_def)

section \<open>The guard before the payload read (named-pipe build)\<close>

text \<open>
  Claim C10. On the named-pipe path, after a header read that did not fail, the payload read
  is issued exactly when the declared \<open>dataSize\<close> is strictly below
  \<open>BRIDGE_BUFFER_SIZE - 6\<close>, while the reconstruction keeps the declared size exactly when
  it is at most \<open>BRIDGE_BUFFER_SIZE - 6\<close>. So for a header that declares exactly
  \<open>BRIDGE_BUFFER_SIZE - 6\<close> bytes the payload read is skipped, the turn ends with
  \<open>continue\<close>, and no packet is delivered.
\<close>

theorem win_guard_strict:
  assumes "length (rxBuff b) = BRIDGE_BUFFER_SIZE" and "val hdr \<noteq> 0 \<or> err hdr = 234"
  shows "let hb = ReadFile_into (rxBuff b) 0 6 hdr; d = unat (load16 hb 2) in
           ((\<exists>b' t. RxJob_iter_win hdr pay uninit b = Inr (b', t) \<and> reads t = [6, d])
              \<longleftrightarrow> d < BRIDGE_BUFFER_SIZE - 6) \<and>
           ((\<exists>pkt. reconstruct hb uninit = Inr pkt \<and> unat (dataSize pkt) = d \<and>
                   length (data pkt) = d)
              \<longleftrightarrow> d \<le> BRIDGE_BUFFER_SIZE - 6) \<and>
           (d = BRIDGE_BUFFER_SIZE - 6 \<longrightarrow>
              RxJob_iter_win hdr pay uninit b =
                Inr (b\<lparr>rxBuff := hb\<rparr>,
                     \<lparr>reads = [6], delivered = None, flow = Continue, slept = 0,
                      reported = False\<rparr>))"
proof -
  let ?hb = "ReadFile_into (rxBuff b) 0 6 hdr"
  let ?b1 = "b\<lparr>rxBuff := ?hb\<rparr>"
  let ?d = "unat (load16 ?hb 2)"
  have len: "length ?hb = BRIDGE_BUFFER_SIZE"
    using assms(1) by (simp add: length_ReadFile_into)
  have step: "RxJob_iter_win hdr pay uninit b = RxJob_win_payload pay uninit ?b1"
    using assms by (intro RxJob_iter_win_header_ok) simp_all
  have skip: "\<not> ?d < BRIDGE_BUFFER_SIZE - 6 \<Longrightarrow>
      RxJob_iter_win hdr pay uninit b =
        Inr (?b1, \<lparr>reads = [6], delivered = None, flow = Continue, slept = 0, reported = False\<rparr>)"
    unfolding step by (rule RxJob_win_payload_skip) simp
  have A: "(\<exists>b' t. RxJob_iter_win hdr pay uninit b = Inr (b', t) \<and> reads t = [6, ?d])
              \<longleftrightarrow> ?d < BRIDGE_BUFFER_SIZE - 6"
  proof
    assume "?d < BRIDGE_BUFFER_SIZE - 6"
    with RxJob_win_payload_read [of ?b1 pay uninit] len
    show "\<exists>b' t. RxJob_iter_win hdr pay uninit b = Inr (b', t) \<and> reads t = [6, ?d]"
      unfolding step by auto
  next
    assume ex: "\<exists>b' t. RxJob_iter_win hdr pay uninit b = Inr (b', t) \<and> reads t = [6, ?d]"
    show "?d < BRIDGE_BUFFER_SIZE - 6"
    proof (rule ccontr)
      assume "\<not> ?d < BRIDGE_BUFFER_SIZE - 6"
      from skip [OF this] ex show False by auto
    qed
  qed
  have B: "(\<exists>pkt. reconstruct ?hb uninit = Inr pkt \<and> unat (dataSize pkt) = ?d \<and>
                   length (data pkt) = ?d) \<longleftrightarrow> ?d \<le> BRIDGE_BUFFER_SIZE - 6"
  proof (cases "?d \<le> BRIDGE_BUFFER_SIZE - 6")
    case True
    then show ?thesis
      using len by (simp add: reconstruct_in_range BRIDGE_BUFFER_SIZE_def)
  next
    case False
    then have "reconstruct ?hb uninit =
         Inr \<lparr>command = load16 ?hb 0, packetID = load16 ?hb 1, dataSize = 1, data = [uninit]\<rparr>"
      using len by (intro reconstruct_oversize) (simp_all add: BRIDGE_BUFFER_SIZE_def)
    with False show ?thesis
      by (auto simp add: BRIDGE_BUFFER_SIZE_def)
  qed
  have C: "?d = BRIDGE_BUFFER_SIZE - 6 \<longrightarrow>
              RxJob_iter_win hdr pay uninit b =
                Inr (?b1, \<lparr>reads = [6], delivered = None, flow = Continue, slept = 0,
                      reported = False\<rparr>)"
    using skip by simp
  from A B C show ?thesis
    unfolding Let_def by blast
qed

theorem win_guard_strict_witness:
  "RxJob_iter_win \<lparr>val = 1, err = 0, bytes = [1, 0, 8, 8, 0xFA, 0x0F]\<rparr>
       \<lparr>val = 1, err = 0, bytes = replicate 4090 7\<rparr> 0 testBridge =
     Inr (testBridge\<lparr>rxBuff := [1, 0, 8, 8, 0xFA, 0x0F] @ replicate 4090 0\<rparr>,
          \<lparr>reads = [6], delivered = None, flow = Continue, slept = 0, reported = False\<rparr>) \<and>
   (\<exists>pkt. reconstruct ([1, 0, 8, 8, 0xFA, 0x0F] @ replicate 4090 0) 0 = Inr pkt \<and>
          unat (dataSize pkt) = 4090 \<and> length (data pkt) = 4090)"
proof -
  have d: "unat (le16 0xFA 0x0F) = 4090"
    by (simp add: le16_def)
  show ?thesis
    using win_guard_strict [of testBridge "\<lparr>val = 1, err = 0, bytes = [1, 0, 8, 8, 0xFA, 0x0F]\<rparr>"
        "\<lparr>val = 1, err = 0, bytes = replicate 4090 7\<rparr>" 0]
    unfolding Let_def testBridge_rxBuff header_bytes_eval load16_2_app d
    by (simp add: testBridge_len BRIDGE_BUFFER_SIZE_def)
qed

lemma iter_unix_safe:
  assumes "length (rxBuff b) = BRIDGE_BUFFER_SIZE"
  shows "\<exists>b' t. RxJob_iter_unix r uninit b = Inr (b', t) \<and>
           length (rxBuff b') = BRIDGE_BUFFER_SIZE \<and> reads t = [BRIDGE_BUFFER_SIZE] \<and>
           (0 < ret r \<longrightarrow> delivered t \<noteq> None) \<and>
           (\<forall>pkt. delivered t = Some pkt \<longrightarrow>
                  unat (dataSize pkt) \<le> MAX_PAYLOAD \<and> length (data pkt) = unat (dataSize pkt))"
proof -
  consider "0 < ret r" | "ret r = - 1" | "\<not> 0 < ret r" "ret r \<noteq> - 1"
    by fastforce
  then show ?thesis
  proof cases
    case 1
    from RxJob_iter_unix_data [OF assms 1, of uninit] show ?thesis
      using assms by (auto simp add: length_recv_into)
  next
    case 2
    from RxJob_iter_unix_error [OF assms 2, of uninit] show ?thesis
      using assms 2 by auto
  next
    case 3
    from RxJob_iter_unix_nothing [OF _ 3, of b uninit] show ?thesis
      using assms 3 by auto
  qed
qed

lemma iter_win_safe:
  assumes "length (rxBuff b) = BRIDGE_BUFFER_SIZE"
  shows "\<exists>b' t. RxJob_iter_win hdr pay uninit b = Inr (b', t) \<and>
           length (rxBuff b') = BRIDGE_BUFFER_SIZE \<and>
           reads t = (if (val hdr \<noteq> 0 \<or> err hdr = 234) \<and>
                         unat (load16 (ReadFile_into (rxBuff b) 0 6 hdr) 2) < BRIDGE_BUFFER_SIZE - 6
                      then [6, unat (load16 (ReadFile_into (rxBuff b) 0 6 hdr) 2)] else [6]) \<and>
           (\<forall>pkt. delivered t = Some pkt \<longrightarrow>
                  unat (dataSize pkt) \<le> MAX_PAYLOAD \<and> length (data pkt) = unat (dataSize pkt))"
proof -
  let ?hb = "ReadFile_into (rxBuff b) 0 6 hdr"
  let ?b1 = "b\<lparr>rxBuff := ?hb\<rparr>"
  have len: "length (rxBuff ?b1) = BRIDGE_BUFFER_SIZE"
    using assms by (simp add: length_ReadFile_into)
  show ?thesis
  proof (cases "val hdr \<noteq> 0 \<or> err hdr = 234")
    case ok: True
    have step: "RxJob_iter_win hdr pay uninit b = RxJob_win_payload pay uninit ?b1"
      using assms ok by (intro RxJob_iter_win_header_ok) simp_all
    show ?thesis
    proof (cases "unat (load16 ?hb 2) < BRIDGE_BUFFER_SIZE - 6")
      case True
      with RxJob_win_payload_read [OF len, of pay uninit] ok show ?thesis
        unfolding step by auto
    next
      case False
      with RxJob_win_payload_skip [of ?b1 pay uninit] len ok show ?thesis
        unfolding step by auto
    qed
  next
    case False
    with RxJob_iter_win_header_failed [of b hdr pay uninit] assms len show ?thesis
      by auto
  qed
qed

section \<open>Oversize frames\<close>

text \<open>
  Claim C3 (amended). For a receive buffer of \<open>BRIDGE_BUFFER_SIZE\<close> bytes: when the header
  in the buffer declares more than \<open>MAX_PAYLOAD\<close> bytes, the socket path rebuilds a packet
  with a 1-byte placeholder payload (\<open>dataSize = 1\<close>), and the named-pipe path skips the
  frame before the payload read and produces no packet. On both paths a turn of the loop
  never faults, asks the transport for at most \<open>BRIDGE_BUFFER_SIZE\<close> bytes in all, leaves
  the buffer at its size, and every packet it produces has \<open>dataSize\<close> at most
  \<open>MAX_PAYLOAD\<close> with exactly \<open>dataSize\<close> payload bytes.
\<close>

theorem oversize_frames:
  assumes "length (rxBuff b) = BRIDGE_BUFFER_SIZE"
  shows "(0 < ret r \<and> MAX_PAYLOAD < unat (load16 (recv_into (rxBuff b) r) 2) \<longrightarrow>
            RxJob_iter_unix r uninit b =
              Inr (b\<lparr>rxBuff := recv_into (rxBuff b) r\<rparr>,
                   \<lparr>reads = [BRIDGE_BUFFER_SIZE],
                    delivered = Some \<lparr>command = load16 (recv_into (rxBuff b) r) 0,
                                      packetID = load16 (recv_into (rxBuff b) r) 1,
                                      dataSize = 1, data = [uninit]\<rparr>,
                    flow = EndOfBody, slept = 0, reported = False\<rparr>)) \<and>
         ((val hdr \<noteq> 0 \<or> err hdr = 234) \<and>
            MAX_PAYLOAD < unat (load16 (ReadFile_into (rxBuff b) 0 6 hdr) 2) \<longrightarrow>
            RxJob_iter_win hdr pay uninit b =
              Inr (b\<lparr>rxBuff := ReadFile_into (rxBuff b) 0 6 hdr\<rparr>,
                   \<lparr>reads = [6], delivered = None, flow = Continue, slept = 0,
                    reported = False\<rparr>)) \<and>
         (\<exists>b' t. RxJob_iter_unix r uninit b = Inr (b', t) \<and>
            length (rxBuff b') = BRIDGE_BUFFER_SIZE \<and> sum_list (reads t) \<le> BRIDGE_BUFFER_SIZE \<and>
            (\<forall>pkt. delivered t = Some pkt \<longrightarrow>
                   unat (dataSize pkt) \<le> MAX_PAYLOAD \<and> length (data pkt) = unat (dataSize pkt))) \<and>
         (\<exists>b' t. RxJob_iter_win hdr pay uninit b = Inr (b', t) \<and>
            length (rxBuff b') = BRIDGE_BUFFER_SIZE \<and> sum_list (reads t) \<le> BRIDGE_BUFFER_SIZE \<and>
            (\<forall>pkt. delivered t = Some pkt \<longrightarrow>
                   unat (dataSize pkt) \<le> MAX_PAYLOAD \<and> length (data pkt) = unat (dataSize pkt)))"
proof -
  let ?rb = "recv_into (rxBuff b) r"
  let ?hb = "ReadFile_into (rxBuff b) 0 6 hdr"
  have A: "0 < ret r \<and> MAX_PAYLOAD < unat (load16 ?rb 2) \<longrightarrow>
            RxJob_iter_unix r uninit b =
              Inr (b\<lparr>rxBuff := ?rb\<rparr>,
                   \<lparr>reads = [BRIDGE_BUFFER_SIZE],
                    delivered = Some \<lparr>command = load16 ?rb 0, packetID = load16 ?rb 1,
                                      dataSize = 1, data = [uninit]\<rparr>,
                    flow = EndOfBody, slept = 0, reported = False\<rparr>)"
  proof
    assume h: "0 < ret r \<and> MAX_PAYLOAD < unat (load16 ?rb 2)"
    have "reconstruct ?rb uninit =
        Inr \<lparr>command = load16 ?rb 0, packetID = load16 ?rb 1, dataSize = 1, data = [uninit]\<rparr>"
      using h assms
      by (intro reconstruct_oversize) (simp_all add: length_recv_into MAX_PAYLOAD_def BRIDGE_BUFFER_SIZE_def)
    with RxJob_iter_unix_data [OF assms, of r uninit] h
    show "RxJob_iter_unix r uninit b =
              Inr (b\<lparr>rxBuff := ?rb\<rparr>,
                   \<lparr>reads = [BRIDGE_BUFFER_SIZE],
                    delivered = Some \<lparr>command = load16 ?rb 0, packetID = load16 ?rb 1,
                                      dataSize = 1, data = [uninit]\<rparr>,
                    flow = EndOfBody, slept = 0, reported = False\<rparr>)"
      by auto
  qed
  have B: "(val hdr \<noteq> 0 \<or> err hdr = 234) \<and> MAX_PAYLOAD < unat (load16 ?hb 2) \<longrightarrow>
            RxJob_iter_win hdr pay uninit b =
              Inr (b\<lparr>rxBuff := ?hb\<rparr>,
                   \<lparr>reads = [6], delivered = None, flow = Continue, slept = 0,
                    reported = False\<rparr>)"
  proof
    assume h: "(val hdr \<noteq> 0 \<or> err hdr = 234) \<and> MAX_PAYLOAD < unat (load16 ?hb 2)"
    have "RxJob_iter_win hdr pay uninit b = RxJob_win_payload pay uninit (b\<lparr>rxBuff := ?hb\<rparr>)"
      using assms h by (intro RxJob_iter_win_header_ok) simp_all
    also have "\<dots> = Inr (b\<lparr>rxBuff := ?hb\<rparr>,
                   \<lparr>reads = [6], delivered = None, flow = Continue, slept = 0,
                    reported = False\<rparr>)"
      using h by (intro RxJob_win_payload_skip) (simp add: MAX_PAYLOAD_def)
    finally show "RxJob_iter_win hdr pay uninit b =
              Inr (b\<lparr>rxBuff := ?hb\<rparr>,
                   \<lparr>reads = [6], delivered = None, flow = Continue, slept = 0,
                    reported = False\<rparr>)" .
  qed
  from iter_unix_safe [OF assms, of r uninit]
  have C: "\<exists>b' t. RxJob_iter_unix r uninit b = Inr (b', t) \<and>
            length (rxBuff b') = BRIDGE_BUFFER_SIZE \<and> sum_list (reads t) \<le> BRIDGE_BUFFER_SIZE \<and>
            (\<forall>pkt. delivered t = Some pkt \<longrightarrow>
                   unat (dataSize pkt) \<le> MAX_PAYLOAD \<and> length (data pkt) = unat (dataSize pkt))"
    by auto
  from iter_win_safe [OF assms, of hdr pay uninit]
  have D: "\<exists>b' t. RxJob_iter_win hdr pay uninit b = Inr (b', t) \<and>
            length (rxBuff b') = BRIDGE_BUFFER_SIZE \<and> sum_list (reads t) \<le> BRIDGE_BUFFER_SIZE \<and>
            (\<forall>pkt. delivered t = Some pkt \<longrightarrow>
                   unat (dataSize pkt) \<le> MAX_PAYLOAD \<and> length (data pkt) = unat (dataSize pkt))"
    by (auto simp add: BRIDGE_BUFFER_SIZE_def split: if_splits)
  from A B C D show ?thesis by blast
qed


lemma recv_header_eval:
  "recv_into (replicate 4096 0) \<lparr>ret = 6, rbytes = [a0, a1, a2, a3, a4, a5]\<rparr>
     = [a0, a1, a2, a3, a4, a5] @ replicate 4090 0"
  by (simp add: recv_into_def buf_write_def)

lemma load16_0_app: "load16 ([a0, a1, a2, a3, a4, a5] @ rest) 0 = le16 a0 a1"
  by (simp add: load16_0)

lemma load16_1_app: "load16 ([a0, a1, a2, a3, a4, a5] @ rest) 1 = le16 a2 a3"
  by (simp add: load16_def)

lemma le16_eval:
  "le16 1 0 = 1" "le16 8 8 = 0x0808" "le16 8 0 = 8" "le16 0 0 = 0"
  "unat (le16 0x88 0x13) = 5000" "unat (le16 0xFA 0x0F) = 4090"
  by (simp_all add: le16_def)

theorem oversize_frames_witness:
  "RxJob_iter_unix \<lparr>ret = 6, rbytes = [1, 0, 8, 8, 0x88, 0x13]\<rparr> 0xAA testBridge =
     Inr (testBridge\<lparr>rxBuff := [1, 0, 8, 8, 0x88, 0x13] @ replicate 4090 0\<rparr>,
          \<lparr>reads = [BRIDGE_BUFFER_SIZE],
           delivered = Some \<lparr>command = 1, packetID = 0x0808, dataSize = 1, data = [0xAA]\<rparr>,
           flow = EndOfBody, slept = 0, reported = False\<rparr>) \<and>
   RxJob_iter_win \<lparr>val = 1, err = 0, bytes = [1, 0, 8, 8, 0x88, 0x13]\<rparr>
       \<lparr>val = 1, err = 0, bytes = []\<rparr> 0xAA testBridge =
     Inr (testBridge\<lparr>rxBuff := [1, 0, 8, 8, 0x88, 0x13] @ replicate 4090 0\<rparr>,
          \<lparr>reads = [6], delivered = None, flow = Continue, slept = 0, reported = False\<rparr>)"
  using oversize_frames [where b = testBridge
      and r = "\<lparr>ret = 6, rbytes = [1, 0, 8, 8, 0x88, 0x13]\<rparr>"
      and hdr = "\<lparr>val = 1, err = 0, bytes = [1, 0, 8, 8, 0x88, 0x13]\<rparr>" and uninit = "0xAA"
      and pay = "\<lparr>val = 1, err = 0, bytes = []\<rparr>"]
  unfolding testBridge_rxBuff header_bytes_eval recv_header_eval load16_2_app load16_1_app
    load16_0_app le16_eval
  by (simp add: testBridge_len MAX_PAYLOAD_def BRIDGE_BUFFER_SIZE_def)

text \<open>
  As stated, C3 has the receive worker substitute a 1-byte placeholder for every oversize
  frame. On the named-pipe path a header declaring 5000 bytes ends the turn at the guard of
  line 249: no packet, placeholder or other, is produced.
\<close>

theorem win_oversize_no_placeholder:
  "MAX_PAYLOAD < unat (load16 ([1, 0, 8, 8, 0x88, 0x13] @ replicate 4090 0) 2) \<and>
   trace_of (RxJob_iter_win \<lparr>val = 1, err = 0, bytes = [1, 0, 8, 8, 0x88, 0x13]\<rparr>
       \<lparr>val = 1, err = 0, bytes = []\<rparr> 0xAA testBridge) =
     Some \<lparr>reads = [6], delivered = None, flow = Continue, slept = 0, reported = False\<rparr>"
proof -
  let ?hdr = "\<lparr>val = 1, err = 0, bytes = [1, 0, 8, 8, 0x88, 0x13]\<rparr>"
  let ?pay = "\<lparr>val = 1, err = 0, bytes = []\<rparr>"
  have big: "MAX_PAYLOAD < unat (load16 ([1, 0, 8, 8, 0x88, 0x13] @ replicate 4090 0) 2)"
    unfolding load16_2_app le16_eval by (simp add: MAX_PAYLOAD_def BRIDGE_BUFFER_SIZE_def)
  have "RxJob_iter_win ?hdr ?pay 0xAA testBridge =
      RxJob_win_payload ?pay 0xAA (testBridge\<lparr>rxBuff := ReadFile_into (rxBuff testBridge) 0 6 ?hdr\<rparr>)"
    by (rule RxJob_iter_win_header_ok) (simp_all add: testBridge_len)
  also have "\<dots> = Inr (testBridge\<lparr>rxBuff := ReadFile_into (rxBuff testBridge) 0 6 ?hdr\<rparr>,
      \<lparr>reads = [6], delivered = None, flow = Continue, slept = 0, reported = False\<rparr>)"
    by (rule RxJob_win_payload_skip)
      (use big in \<open>simp add: testBridge_rxBuff header_bytes_eval MAX_PAYLOAD_def\<close>)
  finally show ?thesis
    using big by (simp add: trace_of_def)
qed

section \<open>What the receive worker asks the transport for\<close>

text \<open>
  Claim C5 (amended). For a receive buffer of \<open>BRIDGE_BUFFER_SIZE\<close> bytes: on the
  named-pipe path a turn of the loop first asks for exactly 6 header bytes and then, when
  the header read did not fail and the declared \<open>dataSize\<close> is below
  \<open>BRIDGE_BUFFER_SIZE - 6\<close>, for exactly \<open>dataSize\<close> payload bytes, and for nothing
  else; on the socket path a turn issues one read of up to \<open>BRIDGE_BUFFER_SIZE\<close> bytes
  and rebuilds a packet from the buffer whenever a positive number of bytes arrived.
\<close>

theorem rx_read_requests:
  assumes "length (rxBuff b) = BRIDGE_BUFFER_SIZE"
  shows "(\<exists>b' t. RxJob_iter_win hdr pay uninit b = Inr (b', t) \<and>
            reads t = (if (val hdr \<noteq> 0 \<or> err hdr = 234) \<and>
                          unat (load16 (ReadFile_into (rxBuff b) 0 6 hdr) 2) < BRIDGE_BUFFER_SIZE - 6
                       then [6, unat (load16 (ReadFile_into (rxBuff b) 0 6 hdr) 2)] else [6])) \<and>
         (\<exists>b' t. RxJob_iter_unix r uninit b = Inr (b', t) \<and>
            reads t = [BRIDGE_BUFFER_SIZE] \<and> (0 < ret r \<longrightarrow> delivered t \<noteq> None))"
  using iter_win_safe [OF assms, of hdr pay uninit] iter_unix_safe [OF assms, of r uninit]
  by blast

theorem rx_read_requests_witness:
  "(\<exists>b' t. RxJob_iter_win \<lparr>val = 1, err = 0, bytes = [1, 0, 8, 8, 5, 0]\<rparr>
              \<lparr>val = 1, err = 0, bytes = [1, 2, 3, 4, 5]\<rparr> 0 testBridge = Inr (b', t) \<and>
            reads t = [6, 5]) \<and>
   (\<exists>b' t. RxJob_iter_unix \<lparr>ret = 3, rbytes = [1, 0, 8]\<rparr> 0 testBridge = Inr (b', t) \<and>
            reads t = [BRIDGE_BUFFER_SIZE] \<and> delivered t \<noteq> None)"
proof -
  have d: "unat (le16 5 0) = 5" by (simp add: le16_def)
  show ?thesis
    using rx_read_requests [where b = testBridge
      and hdr = "\<lparr>val = 1, err = 0, bytes = [1, 0, 8, 8, 5, 0]\<rparr>"
      and pay = "\<lparr>val = 1, err = 0, bytes = [1, 2, 3, 4, 5]\<rparr>" and uninit = 0
      and r = "\<lparr>ret = 3, rbytes = [1, 0, 8]\<rparr>"]
    unfolding testBridge_rxBuff header_bytes_eval load16_2_app d
    by (simp add: testBridge_len BRIDGE_BUFFER_SIZE_def)
qed

text \<open>
  As stated, C5 has the worker read exactly 6 header bytes first and never accept a short
  read. On the socket path the one read asks for 4096 bytes; when 3 bytes arrive (no
  disconnect, no error) the turn goes on and rebuilds a packet from the buffer.
\<close>

theorem unix_short_read_processed:
  "trace_of (RxJob_iter_unix \<lparr>ret = 3, rbytes = [1, 0, 8]\<rparr> 0 testBridge) =
     Some \<lparr>reads = [4096],
           delivered = Some \<lparr>command = 1, packetID = 8, dataSize = 0, data = []\<rparr>,
           flow = EndOfBody, slept = 0, reported = False\<rparr>"
proof -
  let ?rb = "[1, 0, 8] @ replicate 4093 (0::u8)"
  have rb: "?rb = [1, 0, 8, 0, 0, 0] @ replicate 4090 0"
    by (simp add: numeral_eq_Suc)
  have len: "length ?rb = BRIDGE_BUFFER_SIZE"
    by (simp add: BRIDGE_BUFFER_SIZE_def)
  have z: "unat (load16 ?rb 2) = 0"
    unfolding rb load16_2_app le16_eval by simp
  have "reconstruct ?rb 0 =
         Inr \<lparr>command = load16 ?rb 0, packetID = load16 ?rb 1, dataSize = load16 ?rb 2,
              data = take (unat (load16 ?rb 2)) (drop 6 ?rb)\<rparr>"
    by (rule reconstruct_in_range [OF len]) (unfold z, simp)
  then have rec: "reconstruct ?rb 0 = Inr \<lparr>command = 1, packetID = 8, dataSize = 0, data = []\<rparr>"
    unfolding z unfolding rb load16_0_app load16_1_app load16_2_app le16_eval by simp
  from rec have rec': "reconstruct (1 # 0 # 8 # replicate 4093 0) 0 =
      Inr \<lparr>command = 1, packetID = 8, dataSize = 0, data = []\<rparr>"
    by simp
  show ?thesis
    by (simp add: RxJob_iter_unix_def rx_process_def Let_def testBridge_rxBuff recv_bytes_eval
        rec' trace_of_def BRIDGE_BUFFER_SIZE_def)
qed

section \<open>The receive loop and a peer that went away\<close>

lemma RxJob_iter_unix_no_data:
  assumes "BRIDGE_BUFFER_SIZE \<le> length (rxBuff b)"
  shows "RxJob_iter_unix no_data uninit b = Inr (b, idle_turn)"
  using RxJob_iter_unix_nothing [of b no_data uninit] assms
  by (simp add: no_data_def idle_turn_def)

lemma RxJob_loop_unix_no_data:
  assumes "rx_run b" and "BRIDGE_BUFFER_SIZE \<le> length (rxBuff b)"
  shows "RxJob_loop_unix (replicate n no_data) uninit b = Inr (InLoop, b, replicate n idle_turn)"
proof (induction n)
  case 0
  show ?case using assms(1) by simp
next
  case (Suc n)
  show ?case
    using assms(1) by (simp add: RxJob_iter_unix_no_data [OF assms(2)] Suc idle_turn_def)
qed

lemma RxJob_loop_unix_error:
  assumes "rx_run b" and "length (rxBuff b) = BRIDGE_BUFFER_SIZE" and "ret r = - 1"
  shows "\<exists>t. RxJob_loop_unix (r # rs) uninit b = Inr (Exited, b\<lparr>rx_run := False\<rparr>, [t]) \<and>
           reported t"
proof -
  from RxJob_iter_unix_error [OF assms(2,3), of uninit] obtain pkt where
    it: "RxJob_iter_unix r uninit b =
       Inr (b\<lparr>rx_run := False\<rparr>,
            \<lparr>reads = [BRIDGE_BUFFER_SIZE], delivered = Some pkt, flow = EndOfBody,
             slept = 0, reported = True\<rparr>)"
    by blast
  show ?thesis
    using assms(1) by (cases rs) (simp_all add: it)
qed

text \<open>
  Claim C6 (the code diverges). The claim: when the peer closes its end, the receive worker
  leaves its loop within one polling interval and the disconnect is reported. When the
  peer closes a stream socket, \<open>recv\<close> returns 0; the socket build treats only -1 as a
  disconnect and takes 0 for "nothing there": it sleeps 500 microseconds and continues.
  So however many times \<open>recv\<close> answers 0, the worker is still in its loop, the run flag
  is still set, and nothing has been reported: with a closed peer the worker polls
  without end.
\<close>

theorem peer_close_keeps_worker_in_loop:
  assumes "rx_run b" and "BRIDGE_BUFFER_SIZE \<le> length (rxBuff b)"
  shows "RxJob_loop_unix (replicate n no_data) uninit b = Inr (InLoop, b, replicate n idle_turn)"
  by (rule RxJob_loop_unix_no_data [OF assms])

theorem peer_close_keeps_worker_in_loop_witness:
  "RxJob_loop_unix (replicate 1000 no_data) 0 (testBridge\<lparr>rx_run := True\<rparr>) =
     Inr (InLoop, testBridge\<lparr>rx_run := True\<rparr>, replicate 1000 idle_turn)"
  using peer_close_keeps_worker_in_loop [of "testBridge\<lparr>rx_run := True\<rparr>" 1000 0]
  by (simp add: testBridge_len)

section \<open>Stop and start\<close>

lemma started_by_start:
  "TxStart ws \<lparr>socket_ret = 3, bind_ret = 0\<rparr> testBridge world0 =
     Inr (0, testBridge\<lparr>tx_sock := 3, tx_run := True, tx_worker := Joinable\<rparr>,
          world0\<lparr>open_fds := {3}, sock_files := {''/tmp/testPipeTX''}\<rparr>)"
  "RxStart ws \<lparr>socket_ret = 4, bind_ret = 0\<rparr>
       (testBridge\<lparr>tx_sock := 3, tx_run := True, tx_worker := Joinable\<rparr>)
       (world0\<lparr>open_fds := {3}, sock_files := {''/tmp/testPipeTX''}\<rparr>) =
     Inr (0, startedBridge, startedWorld)"
  by (simp_all add: TxStart_def RxStart_def InitTxBridge_def InitRxBridge_def Let_def
      testBridge_def runSocketTest_bridge_def Bridge_ctor_def world0_def startedBridge_def
      startedWorld_def insert_commute)

lemma join_worker_NotJoinable: "join_worker ws NotJoinable = Inr NotJoinable"
  by (simp add: join_worker_def)

lemma join_worker_Polling: "join_worker Polling t = Inr NotJoinable"
  by (cases t) (simp_all add: join_worker_def)











lemma TxStart_stops_first:
  assumes "tx_run b"
  shows "TxStart ws e b w =
         (case TxStop ws b w of Inl f \<Rightarrow> Inl f
          | Inr (r, b1, w1) \<Rightarrow> TxStart ws e b1 w1)"
  using assms
  by (auto simp add: TxStart_def TxStop_def Let_def split: sum.splits prod.splits if_splits)

lemma TxStart_success:
  assumes "0 \<le> socket_ret e" and "0 \<le> bind_ret e"
    and "tx_worker b = NotJoinable \<or> (tx_run b \<and> ws = Polling)"
  shows "\<exists>b' w'. TxStart ws e b w = Inr (0, b', w') \<and> tx_run b' \<and> tx_worker b' = Joinable \<and>
           tx_sock b' = socket_ret e \<and> socket_ret e \<in> open_fds w' \<and>
           tx_connection_string b \<in> sock_files w'"
  using assms
  by (cases "tx_run b")
     (auto simp add: TxStart_def Let_def TxStop_def InitTxBridge_def join_worker_NotJoinable
       join_worker_Polling split: if_splits prod.splits)

lemma TxStart_init_failed:
  assumes "\<not> tx_run b" and "InitTxBridge e b w = (rc, b2, w2)" and "rc \<noteq> 0"
  shows "TxStart ws e b w = Inr (rc, b2, w2) \<and> \<not> tx_run b2 \<and> tx_worker b2 = tx_worker b"
  using assms
  by (auto simp add: TxStart_def Let_def InitTxBridge_def split: if_splits)

text \<open>
  Claim C8 (the code diverges). The claim: when binding fails, start returns a nonzero error
  and leaves the engine stopped, with no endpoint resource retained. With \<open>socket\<close>
  returning descriptor 3 and \<open>bind\<close> failing, \<open>TxStart\<close> and \<open>RxStart\<close> return 2 with
  the run flag clear and no worker, but descriptor 3 stays open and stored in the socket
  member: the early return of \<open>InitTxBridge\<close> does not close it. A second start (socket 4,
  bind succeeding) overwrites the member, and the stop after it (on a worker that is not
  parked) closes 4 only: descriptor 3 is never closed. When \<open>socket\<close> itself fails nothing
  is retained. The starts here find the run flag clear, so they hold wherever a worker
  would stand.
\<close>

theorem start_bind_failure_keeps_socket:
  "TxStart ws \<lparr>socket_ret = 3, bind_ret = - 1\<rparr> testBridge world0 =
     Inr (2, testBridge\<lparr>tx_sock := 3\<rparr>, world0\<lparr>open_fds := {3}\<rparr>) \<and>
   RxStart ws \<lparr>socket_ret = 3, bind_ret = - 1\<rparr> testBridge world0 =
     Inr (2, testBridge\<lparr>rx_sock := 3\<rparr>, world0\<lparr>open_fds := {3}\<rparr>) \<and>
   TxStart ws \<lparr>socket_ret = 4, bind_ret = 0\<rparr> (testBridge\<lparr>tx_sock := 3\<rparr>)
       (world0\<lparr>open_fds := {3}\<rparr>) =
     Inr (0, testBridge\<lparr>tx_sock := 4, tx_run := True, tx_worker := Joinable\<rparr>,
          world0\<lparr>open_fds := {3, 4}, sock_files := {''/tmp/testPipeTX''}\<rparr>) \<and>
   TxStop Polling (testBridge\<lparr>tx_sock := 4, tx_run := True, tx_worker := Joinable\<rparr>)
       (world0\<lparr>open_fds := {3, 4}, sock_files := {''/tmp/testPipeTX''}\<rparr>) =
     Inr (0, testBridge, world0\<lparr>open_fds := {3}\<rparr>) \<and>
   TxStart ws \<lparr>socket_ret = - 1, bind_ret = - 1\<rparr> testBridge world0 = Inr (1, testBridge, world0)"
proof -
  have d: "{3, 4} - {4} = {3::int}"
    by auto
  show ?thesis
    by (simp add: TxStart_def RxStart_def TxStop_def InitTxBridge_def InitRxBridge_def Let_def
        testBridge_def runSocketTest_bridge_def Bridge_ctor_def world0_def join_worker_Polling
        insert_commute d)
qed

end
